theory Spec2Isabelle
  imports Main "HOL-Library.Sublist"
begin

section \<open>fetch-attachments: a model of \<open>cmd/fetch_attachments.go\<close>\<close>

text \<open>
  The command copies every entry of an input zip archive into an output archive and, for
  entries that look like channel files, resolves the attachments of the posts and adds
  them under \<open>__uploads/\<close>. Go strings are byte sequences: they are modelled as
  \<open>string\<close> (a list of bytes). Everything the command obtains from the outside (the
  archives, the JSON decoder, the local directory, the HTTP client) is a field of the
  environment record below; everything it does to the outside (archive entries written,
  lines printed and logged, requests issued) is a field of the state record. The answers
  of the outside world are functions: the directory, the local files and the server do
  not change during a run. The lines of \<open>verbosePrintln\<close> (a helper declared in another
  file, which prints only in verbose mode) and the deferred \<open>Close\<close> calls are left out.
\<close>

subsection \<open>Library functions of Go used by the command\<close>

type_synonym bytes = string

text \<open>\<open>strings.Split(s, "/")\<close>: one more piece than there are separators.\<close>

fun strings_Split :: "string \<Rightarrow> char \<Rightarrow> string list" where
  "strings_Split [] c = [[]]"
| "strings_Split (x # xs) c =
     (if x = c then [] # strings_Split xs c
      else (case strings_Split xs c of
              [] \<Rightarrow> [[x]]
            | y # ys \<Rightarrow> (x # y) # ys))"

definition strings_HasPrefix :: "string \<Rightarrow> string \<Rightarrow> bool" where
  "strings_HasPrefix s p = (length p \<le> length s \<and> take (length p) s = p)"

definition strings_HasSuffix :: "string \<Rightarrow> string \<Rightarrow> bool" where
  "strings_HasSuffix s suf =
     (length suf \<le> length s \<and> drop (length s - length suf) s = suf)"

definition strings_TrimPrefix :: "string \<Rightarrow> string \<Rightarrow> string" where
  "strings_TrimPrefix s p = (if strings_HasPrefix s p then drop (length p) s else s)"

definition strings_TrimSuffix :: "string \<Rightarrow> string \<Rightarrow> string" where
  "strings_TrimSuffix s suf =
     (if strings_HasSuffix s suf then take (length s - length suf) s else s)"

fun strings_Join :: "string list \<Rightarrow> string \<Rightarrow> string" where
  "strings_Join [] sep = []"
| "strings_Join [x] sep = x"
| "strings_Join (x # y # ys) sep = x @ sep @ strings_Join (y # ys) sep"

text \<open>
  \<open>filepath.Clean\<close> on a slash-separated path (the separator of Unix): empty and \<open>.\<close> elements go, an inner
  \<open>..\<close> removes the element before it, a \<open>..\<close> at the start of a rooted path goes, and
  the empty result is \<open>.\<close>.
\<close>

definition clean_step :: "bool \<Rightarrow> string list \<Rightarrow> string \<Rightarrow> string list" where
  "clean_step rooted stack el =
     (if el = [] \<or> el = ''.'' then stack
      else if el = ''..'' then
        (if stack \<noteq> [] \<and> last stack \<noteq> ''..'' then butlast stack
         else if rooted then stack
         else stack @ [''..''])
      else stack @ [el])"

definition filepath_Clean :: "string \<Rightarrow> string" where
  "filepath_Clean path =
     (if path = [] then ''.''
      else
        let rooted = (hd path = CHR ''/'');
            out = (if rooted then ''/'' else []) @
                  strings_Join (foldl (clean_step rooted) [] (strings_Split path CHR ''/'')) ''/''
        in if out = [] then ''.'' else out)"

text \<open>\<open>filepath.Join(dir, name)\<close>: leading empty elements are dropped, the rest is joined
  with the separator and cleaned.\<close>

definition filepath_Join :: "string \<Rightarrow> string \<Rightarrow> string" where
  "filepath_Join dir name =
     (if dir \<noteq> [] then filepath_Clean (dir @ ''/'' @ name)
      else if name \<noteq> [] then filepath_Clean name
      else [])"

text \<open>\<open>filepath.Base\<close>: trailing slashes are stripped, then the last element is taken.\<close>

definition filepath_Base :: "string \<Rightarrow> string" where
  "filepath_Base path =
     (if path = [] then ''.''
      else
        let p = rev (dropWhile (\<lambda>c. c = CHR ''/'') (rev path));
            e = rev (takeWhile (\<lambda>c. c \<noteq> CHR ''/'') (rev p))
        in if e = [] then ''/'' else e)"

text \<open>\<open>filepath.Ext\<close>: the suffix that starts at the last dot of the last element.\<close>

definition filepath_Ext :: "string \<Rightarrow> string" where
  "filepath_Ext path =
     (let e = takeWhile (\<lambda>c. c \<noteq> CHR ''/'') (rev path)
      in if CHR ''.'' \<in> set e
         then CHR ''.'' # rev (takeWhile (\<lambda>c. c \<noteq> CHR ''.'') e)
         else [])"

text \<open>The classes of the regular expression \<open>[[:space:][:punct:]]\<close> (ASCII only).\<close>

definition is_space :: "char \<Rightarrow> bool" where
  "is_space c = (let n = (of_char c :: nat) in (9 \<le> n \<and> n \<le> 13) \<or> n = 32)"

definition is_punct :: "char \<Rightarrow> bool" where
  "is_punct c =
     (let n = (of_char c :: nat)
      in (33 \<le> n \<and> n \<le> 47) \<or> (58 \<le> n \<and> n \<le> 64) \<or>
         (91 \<le> n \<and> n \<le> 96) \<or> (123 \<le> n \<and> n \<le> 126))"

text \<open>\<open>reg.ReplaceAllString(s, "_")\<close> for that expression: it matches one character at a
  time, so every matching character becomes one underscore.\<close>

definition replaceAllSpacePunct :: "string \<Rightarrow> string" where
  "replaceAllSpacePunct s = map (\<lambda>c. if is_space c \<or> is_punct c then CHR ''_'' else c) s"

subsection \<open>Data\<close>

text \<open>
  \<open>SlackFile\<close> and \<open>SlackPost\<close> are declared in another file of the package; the fields
  and their types are the ones this file uses. \<open>File\<close> is a pointer (\<open>None\<close> is nil),
  \<open>Files\<close> is a slice of pointers (\<open>None\<close> is the nil slice, a \<open>None\<close> element a nil
  pointer, as the decoder produces for a JSON \<open>null\<close>).
\<close>

record SlackFile =
  sf_Id :: string
  sf_Name :: string
  sf_UrlPrivate :: string
  sf_UrlPrivateDownload :: string

record SlackPost =
  Ts :: string
  Subtype :: string
  File :: "SlackFile option"
  Files :: "SlackFile option list option"

text \<open>A readable stream: the bytes it delivers, and the error that ends it (\<open>None\<close> for
  a clean end of file).\<close>

type_synonym stream = "bytes \<times> string option"

text \<open>An entry of the input archive: its name and what \<open>file.Open()\<close> gives.\<close>

record zip_File =
  zf_Name :: string
  zf_Open :: "string + stream"

text \<open>The output archive under construction: the entries in the order of their creation,
  each with the bytes written to it. Only the entry created last is open for writing.\<close>

type_synonym zip_Writer = "(string \<times> bytes) list"

record state =
  zipw :: zip_Writer
  closed :: bool
  stdout :: "string list"
  logged :: "string list"
  requests :: "(string \<times> string option) list"

text \<open>
  The environment: the package-level flags, and the answers of the outside world. An
  error is its message. \<open>zip_create_err\<close> and \<open>zip_write_err\<close> say, for the archive as
  it stands, whether creating an entry of that name or writing those bytes fails (and how
  many bytes went in before the failure).
\<close>

record env =
  inputArchive :: string
  outputArchive :: string
  attachmentsApiToken :: string
  localAttachmentsDir :: string
  zip_OpenReader :: "string + zip_File list"
  os_Create_err :: "string option"
  json_decode :: "bytes \<Rightarrow> string + SlackPost list"
  ioutil_ReadDir :: "string \<Rightarrow> string + string list"
  os_Open :: "string \<Rightarrow> string + stream"
  http_NewRequest_ok :: "string \<Rightarrow> bool"
  client_Do :: "string \<Rightarrow> string option \<Rightarrow> string + (nat \<times> stream)"
  zip_create_err :: "zip_Writer \<Rightarrow> string \<Rightarrow> string option"
  zip_write_err :: "zip_Writer \<Rightarrow> bytes \<Rightarrow> (nat \<times> string) option"
  zip_close_err :: "zip_Writer \<Rightarrow> string option"

text \<open>
  \<open>json.Unmarshal(inBuf, &posts)\<close>. The JSON value \<open>null\<close>, with white space around it
  or not, is no error for the decoder of Go: it leaves the slice nil, which the loop over
  the posts treats as the empty list. What the decoder does with any other bytes is the
  field \<open>json_decode\<close> of the environment.
\<close>

definition is_json_space :: "char \<Rightarrow> bool" where
  "is_json_space c = (c = CHR '' '' \<or> c = CHR 0x09 \<or> c = CHR 0x0A \<or> c = CHR 0x0D)"

definition json_Unmarshal :: "env \<Rightarrow> bytes \<Rightarrow> string + SlackPost list" where
  "json_Unmarshal env b =
     (if rev (dropWhile is_json_space (rev (dropWhile is_json_space b))) = ''null''
      then Inr []
      else json_decode env b)"

text \<open>How a function stops early: \<open>os.Exit\<close>, a run-time panic, or a returned error.\<close>

datatype abort = Exit nat | Panic | Error string

definition init_state :: state where
  "init_state = \<lparr>zipw = [], closed = False, stdout = [], logged = [], requests = []\<rparr>"

definition fmt_Printf :: "state \<Rightarrow> string \<Rightarrow> state" where
  "fmt_Printf st msg = st\<lparr>stdout := stdout st @ [msg]\<rparr>"

definition log_Print :: "state \<Rightarrow> string \<Rightarrow> state" where
  "log_Print st msg = st\<lparr>logged := logged st @ [msg]\<rparr>"

subsection \<open>The zip writer\<close>

definition zip_Create :: "env \<Rightarrow> state \<Rightarrow> string \<Rightarrow> string + state" where
  "zip_Create env st name =
     (case zip_create_err env (zipw st) name of
        Some err \<Rightarrow> Inl err
      | None \<Rightarrow> Inr (st\<lparr>zipw := zipw st @ [(name, [])]\<rparr>))"

fun append_last :: "zip_Writer \<Rightarrow> bytes \<Rightarrow> zip_Writer" where
  "append_last [] b = []"
| "append_last [(n, c)] b = [(n, c @ b)]"
| "append_last (e # e' # es) b = e # append_last (e' # es) b"

text \<open>\<open>outFile.Write(b)\<close>, with \<open>outFile\<close> the entry created last.\<close>

definition zip_Write :: "env \<Rightarrow> state \<Rightarrow> bytes \<Rightarrow> state \<times> string option" where
  "zip_Write env st b =
     (case zip_write_err env (zipw st) b of
        None \<Rightarrow> (st\<lparr>zipw := append_last (zipw st) b\<rparr>, None)
      | Some (n, err) \<Rightarrow> (st\<lparr>zipw := append_last (zipw st) (take n b)\<rparr>, Some err))"

text \<open>\<open>io.Copy(outFile, src)\<close>: what the source delivers goes to the entry; the error is
  the write error, or else the read error of the source.\<close>

definition io_Copy :: "env \<Rightarrow> state \<Rightarrow> stream \<Rightarrow> state \<times> string option" where
  "io_Copy env st src =
     (case zip_Write env st (fst src) of
        (st', Some err) \<Rightarrow> (st', Some err)
      | (st', None) \<Rightarrow> (st', snd src))"

subsection \<open>findLocalAttachment\<close>

definition findLocalAttachment :: "env \<Rightarrow> string \<Rightarrow> string \<Rightarrow> string + string" where
  "findLocalAttachment env fileID dir =
     (if dir = [] then Inl ''Local attachment directory not configured.''
      else
        case ioutil_ReadDir env dir of
          Inl err \<Rightarrow> Inl err
        | Inr files \<Rightarrow>
            (case find (\<lambda>f. strings_HasPrefix f fileID) files of
               Some f \<Rightarrow> Inr (filepath_Join dir f)
             | None \<Rightarrow> Inl ''No matching local attachment found.''))"

subsection \<open>processChannelFile\<close>

text \<open>Lines 145 to 155: the display name derived from the local file.\<close>

definition deriveName :: "string \<Rightarrow> string \<Rightarrow> string" where
  "deriveName fileId localFilePath =
     (let fileName = filepath_Base localFilePath;
          pre = fileId @ ''-'';
          fileName = (if strings_HasPrefix fileName pre
                      then strings_TrimPrefix fileName pre else fileName);
          ext = filepath_Ext fileName;
          fileNameWithoutExt = strings_TrimSuffix fileName ext;
          fileNameWithoutExt = replaceAllSpacePunct fileNameWithoutExt
      in fileNameWithoutExt @ ext)"

text \<open>Lines 139 to 160: the local path (empty when none was found), the descriptor with
  its name derived if it was empty, and the log.\<close>

definition lookupLocal :: "env \<Rightarrow> state \<Rightarrow> SlackFile \<Rightarrow> string \<times> SlackFile \<times> state" where
  "lookupLocal env st file =
     (let (localFilePath, file, st) =
        (if length (sf_Id file) > 0 \<and> localAttachmentsDir env \<noteq> [] then
           (case findLocalAttachment env (sf_Id file) (localAttachmentsDir env) of
              Inr p \<Rightarrow>
                (p,
                 (if length (sf_Name file) < 1
                  then file\<lparr>sf_Name := deriveName (sf_Id file) p\<rparr> else file),
                 log_Print st (''++++++ Find local attachments: '' @ sf_Id file))
            | Inl err \<Rightarrow> ([], file, st))
         else ([], file, st))
      in (localFilePath, file, log_Print st (''++++++ Local file path: '' @ localFilePath)))"

text \<open>Lines 163 to 164: the check made when no local path was found.\<close>

definition missingProperties :: "SlackFile \<Rightarrow> bool" where
  "missingProperties file =
     (length (sf_Id file) < 1 \<or> length (sf_Name file) < 1 \<or>
      \<not> (length (sf_UrlPrivate file) > 0 \<or> length (sf_UrlPrivateDownload file) > 0))"

text \<open>Lines 171 to 176.\<close>

definition chooseDownloadUrl :: "SlackFile \<Rightarrow> string" where
  "chooseDownloadUrl file =
     (if length (sf_UrlPrivateDownload file) > 0 then sf_UrlPrivateDownload file
      else sf_UrlPrivate file)"

text \<open>Lines 201 to 217: the download failed; the local file is tried.\<close>

definition localFallback :: "env \<Rightarrow> state \<Rightarrow> SlackFile \<Rightarrow> string \<Rightarrow> state" where
  "localFallback env st file downloadUrl =
     (case findLocalAttachment env (sf_Id file) (localAttachmentsDir env) of
        Inr localFilePath \<Rightarrow>
          (case os_Open env localFilePath of
             Inl err \<Rightarrow>
               log_Print st (''++++++ Failed to open the local file: '' @ localFilePath @
                             [CHR 0x0A, CHR 0x0A] @ err @ [CHR 0x0A])
           | Inr localFile \<Rightarrow>
               (case io_Copy env st localFile of
                  (st', None) \<Rightarrow>
                    fmt_Printf st' (''Use local file: '' @ sf_Id file @ '' ('' @
                                    localFilePath @ '')'' @ [CHR 0x0A])
                | (st', Some err) \<Rightarrow>
                    log_Print st' (''++++++ Download failed and no local attachment.: '' @
                                   downloadUrl)))
      | Inl err \<Rightarrow>
          log_Print st (''++++++ Download failed and no local attachment.: '' @ downloadUrl))"

text \<open>Lines 190 to 228: the request, and the copy of the response or the fallback. The
  entry of the descriptor is the one created last.\<close>

definition fetchFile :: "env \<Rightarrow> state \<Rightarrow> SlackFile \<Rightarrow> string \<Rightarrow> string \<Rightarrow> state" where
  "fetchFile env st file downloadUrl token =
     (if \<not> http_NewRequest_ok env downloadUrl then
        log_Print st (''++++++ Failed to create file download request: '' @ downloadUrl)
      else
        let auth = (if token \<noteq> [] then Some (''Bearer '' @ token) else None);
            st = st\<lparr>requests := requests st @ [(downloadUrl, auth)]\<rparr>
        in case client_Do env downloadUrl auth of
             Inl err \<Rightarrow> localFallback env st file downloadUrl
           | Inr (statusCode, body) \<Rightarrow>
               if statusCode \<noteq> 200 then localFallback env st file downloadUrl
               else
                 (case io_Copy env st body of
                    (st', cerr) \<Rightarrow>
                      fmt_Printf
                        (case cerr of
                           Some err \<Rightarrow>
                             log_Print st'
                               (''++++++ Failed to write the downloaded file to the output archive: '' @
                                downloadUrl @ [CHR 0x0A, CHR 0x0A] @ err @ [CHR 0x0A])
                         | None \<Rightarrow> st')
                        (''Downloaded attachment into output archive: '' @ sf_Id file @
                         ''.'' @ [CHR 0x0A])))"

text \<open>Lines 137 to 229: the body of the loop over the files of a post, for a non-nil
  descriptor. \<open>ts\<close> is the timestamp of the post.\<close>

definition processFile :: "env \<Rightarrow> state \<Rightarrow> string \<Rightarrow> SlackFile \<Rightarrow> string \<Rightarrow> state" where
  "processFile env st ts file token =
     (let st = log_Print st [CHR 0x0A];
          st = log_Print st (''++++++ Processing file: '' @ sf_Id file @ [CHR 0x0A]);
          (localFilePath, file, st) = lookupLocal env st file
      in if localFilePath = [] \<and> missingProperties file then
           log_Print st (''++++++ file_share post has missing properties on its File object: '' @
                         ts @ [CHR 0x0A])
         else
           let downloadUrl = chooseDownloadUrl file;
               outputPath = ''__uploads/'' @ sf_Id file @ ''/'' @ sf_Name file
           in case zip_Create env st outputPath of
                Inl err \<Rightarrow>
                  log_Print st (''++++++ Failed to create output file in output archive: '' @
                                outputPath @ [CHR 0x0A, CHR 0x0A] @ err @ [CHR 0x0A])
              | Inr st \<Rightarrow> fetchFile env st file downloadUrl token)"

text \<open>The loop over \<open>post.Files\<close>. Reading the identifier of a nil descriptor panics, after
  the first line of the body has been logged.\<close>

fun processFiles ::
  "env \<Rightarrow> state \<Rightarrow> string \<Rightarrow> SlackFile option list \<Rightarrow> string \<Rightarrow> (abort \<times> state) + state" where
  "processFiles env st ts [] token = Inr st"
| "processFiles env st ts (None # fs) token = Inl (Panic, log_Print st [CHR 0x0A])"
| "processFiles env st ts (Some file # fs) token =
     processFiles env (processFile env st ts file token) ts fs token"

text \<open>Lines 128 to 229: a post without a files array is passed over; else its files are
  processed in order.\<close>

definition processPostFiles ::
  "env \<Rightarrow> state \<Rightarrow> SlackPost \<Rightarrow> string \<Rightarrow> (abort \<times> state) + state" where
  "processPostFiles env st post token =
     (case Files post of
        None \<Rightarrow> Inr st
      | Some files \<Rightarrow> processFiles env st (Ts post) files token)"

text \<open>Lines 116 to 229: the body of the loop over the posts. A legacy \<open>file_share\<close> post
  is skipped when it has no file object; else its file object becomes its files array.\<close>

definition processPost :: "env \<Rightarrow> state \<Rightarrow> SlackPost \<Rightarrow> string \<Rightarrow> (abort \<times> state) + state" where
  "processPost env st post token =
     (if Subtype post = ''file_share'' then
        (case File post of
           None \<Rightarrow>
             Inr (log_Print st (''++++++ file_share post has no File property: '' @ Ts post @
                                [CHR 0x0A]))
         | Some f \<Rightarrow> processPostFiles env st (post\<lparr>Files := Some [File post]\<rparr>) token)
      else processPostFiles env st post token)"

fun processPosts ::
  "env \<Rightarrow> state \<Rightarrow> SlackPost list \<Rightarrow> string \<Rightarrow> (abort \<times> state) + state" where
  "processPosts env st [] token = Inr st"
| "processPosts env st (post # posts) token =
     (case processPost env st post token of
        Inl a \<Rightarrow> Inl a
      | Inr st' \<Rightarrow> processPosts env st' posts token)"

definition processChannelFile ::
  "env \<Rightarrow> state \<Rightarrow> zip_File \<Rightarrow> bytes \<Rightarrow> string \<Rightarrow> (abort \<times> state) + state" where
  "processChannelFile env st file inBuf token =
     (case json_Unmarshal env inBuf of
        Inl err \<Rightarrow>
          Inl (Error (''Couldn't parse the JSON file: '' @ zf_Name file @
                      [CHR 0x0A, CHR 0x0A] @ err @ [CHR 0x0A]), st)
      | Inr posts \<Rightarrow> processPosts env st posts token)"

subsection \<open>fetchAttachments\<close>

text \<open>Lines 85 to 86: the names of the files that are parsed.\<close>

definition isChannelFile :: "string \<Rightarrow> bool" where
  "isChannelFile name =
     (let splits = strings_Split name CHR ''/''
      in length splits = 2 \<and> \<not> strings_HasPrefix (splits ! 0) ''__'' \<and>
         strings_HasSuffix (splits ! 1) ''.json'')"

text \<open>Lines 60 to 82: the entry is read and written to the output archive. The result is
  the state and the bytes read.\<close>

definition copyEntry :: "env \<Rightarrow> state \<Rightarrow> zip_File \<Rightarrow> (abort \<times> state) + (state \<times> bytes)" where
  "copyEntry env st file =
     (case zf_Open file of
        Inl err \<Rightarrow>
          Inl (Exit 1, fmt_Printf st (''Failed to open file in input archive: '' @
                                      zf_Name file @ [CHR 0x0A, CHR 0x0A] @ err))
      | Inr (inBuf, rerr) \<Rightarrow>
          let st = (case rerr of
                      Some err \<Rightarrow>
                        fmt_Printf st (''Failed to read file in input archive: '' @
                                       zf_Name file @ [CHR 0x0A, CHR 0x0A] @ err)
                    | None \<Rightarrow> st)
          in (case zip_Create env st (zf_Name file) of
                Inl err \<Rightarrow>
                  Inl (Exit 1, fmt_Printf st (''Failed to create file in output archive: '' @
                                              zf_Name file @ [CHR 0x0A, CHR 0x0A] @ err))
              | Inr st \<Rightarrow>
                  (case zip_Write env st inBuf of
                     (st', None) \<Rightarrow> Inr (st', inBuf)
                   | (st', Some err) \<Rightarrow>
                       Inr (fmt_Printf st' (''Failed to write file in output archive: '' @
                                            zf_Name file @ [CHR 0x0A, CHR 0x0A] @ err),
                            inBuf))))"

text \<open>Lines 89 to 92: the error returned by \<open>processChannelFile\<close> is printed and the
  process exits with status 1.\<close>

definition exitOnError :: "(abort \<times> state) + state \<Rightarrow> (abort \<times> state) + state" where
  "exitOnError r =
     (case r of
        Inl (Error err, st') \<Rightarrow> Inl (Exit 1, fmt_Printf st' err)
      | Inl (a, st') \<Rightarrow> Inl (a, st')
      | Inr st' \<Rightarrow> Inr st')"

text \<open>Lines 57 to 94: the body of the loop over the entries of the input archive.\<close>

definition fetchEntry :: "env \<Rightarrow> state \<Rightarrow> zip_File \<Rightarrow> (abort \<times> state) + state" where
  "fetchEntry env st file =
     (case copyEntry env st file of
        Inl a \<Rightarrow> Inl a
      | Inr (st, inBuf) \<Rightarrow>
          if isChannelFile (zf_Name file) then
            exitOnError (processChannelFile env st file inBuf (attachmentsApiToken env))
          else Inr st)"

fun fetchEntries :: "env \<Rightarrow> state \<Rightarrow> zip_File list \<Rightarrow> (abort \<times> state) + state" where
  "fetchEntries env st [] = Inr st"
| "fetchEntries env st (file # files) =
     (case fetchEntry env st file of
        Inl a \<Rightarrow> Inl a
      | Inr st' \<Rightarrow> fetchEntries env st' files)"

text \<open>Lines 96 to 102: the writer is closed; a failure is printed and nil is returned.\<close>

definition closeWriter :: "env \<Rightarrow> state \<Rightarrow> state" where
  "closeWriter env st =
     (case zip_close_err env (zipw st) of
        Some err \<Rightarrow>
          fmt_Printf st (''Failed to close the output archive.'' @ [CHR 0x0A, CHR 0x0A] @ err)
      | None \<Rightarrow> st\<lparr>closed := True\<rparr>)"

text \<open>The command. \<open>Inr\<close> is the return of nil; \<open>Inl\<close> is an exit or a panic, with the
  state reached.\<close>

definition fetchAttachments :: "env \<Rightarrow> (abort \<times> state) + state" where
  "fetchAttachments env =
     (case zip_OpenReader env of
        Inl err \<Rightarrow>
          Inl (Exit 1, fmt_Printf init_state
                 (''Could not open input archive for reading: '' @ inputArchive env @
                  [CHR 0x0A]))
      | Inr files \<Rightarrow>
          (case os_Create_err env of
             Some err \<Rightarrow>
               Inl (Exit 1, fmt_Printf init_state
                      (''Could not open the output archive for writing: '' @
                       outputArchive env @ [CHR 0x0A, CHR 0x0A] @ err))
           | None \<Rightarrow>
               (case fetchEntries env init_state files of
                  Inl a \<Rightarrow> Inl a
                | Inr st \<Rightarrow> Inr (closeWriter env st))))"

subsection \<open>Concrete environments\<close>

text \<open>An environment in which nothing exists and nothing fails: no local directory, an
  empty input archive, a server that cannot be reached, a decoder that accepts \<open>[]\<close>
  (and \<open>null\<close>) only.\<close>

definition quiet_env :: env where
  "quiet_env =
     \<lparr>inputArchive = ''in.zip'', outputArchive = ''out.zip'',
      attachmentsApiToken = [], localAttachmentsDir = [],
      zip_OpenReader = Inr [], os_Create_err = None,
      json_decode = (\<lambda>b. if b = ''[]'' then Inr [] else Inl ''invalid character''),
      ioutil_ReadDir = (\<lambda>d. Inl ''no such directory''),
      os_Open = (\<lambda>p. Inl ''no such file''),
      http_NewRequest_ok = (\<lambda>u. True),
      client_Do = (\<lambda>u a. Inl ''connection refused''),
      zip_create_err = (\<lambda>w n. None),
      zip_write_err = (\<lambda>w b. None),
      zip_close_err = (\<lambda>w. None)\<rparr>"

text \<open>A server that answers 200 with \<open>DATA\<close> for the download URL (with the token
  \<open>tok\<close>) and 404 for the private URL.\<close>

definition net_env :: env where
  "net_env = quiet_env
     \<lparr>attachmentsApiToken := ''tok'',
      client_Do := (\<lambda>u a. if u = ''http://x/d'' \<and> a = Some ''Bearer tok''
                          then Inr (200, (''DATA'', None))
                          else if u = ''http://x/f'' then Inr (404, ([], None))
                          else Inl ''connection refused'')\<rparr>"

text \<open>A local directory \<open>att\<close> with two files; reading the second one fails after two
  bytes.\<close>

definition local_env :: env where
  "local_env = net_env
     \<lparr>localAttachmentsDir := ''att'',
      ioutil_ReadDir := (\<lambda>d. if d = ''att'' then Inr [''F1-My File!!.png'', ''F2-b.txt'']
                              else Inl ''no such directory''),
      os_Open := (\<lambda>p. if p = ''att/F1-My File!!.png'' then Inr (''LOCAL'', None)
                       else if p = ''att/F2-b.txt'' then Inr (''AB'', Some ''input/output error'')
                       else Inl ''no such file'')\<rparr>"

definition file_none :: SlackFile where
  "file_none = \<lparr>sf_Id = [], sf_Name = [], sf_UrlPrivate = [], sf_UrlPrivateDownload = []\<rparr>"

definition file_F1 :: SlackFile where
  "file_F1 = \<lparr>sf_Id = ''F1'', sf_Name = ''a.png'', sf_UrlPrivate = ''http://x/f'',
              sf_UrlPrivateDownload = ''http://x/d''\<rparr>"

definition file_F1_local :: SlackFile where
  "file_F1_local = \<lparr>sf_Id = ''F1'', sf_Name = [], sf_UrlPrivate = ''http://x/f'',
                    sf_UrlPrivateDownload = []\<rparr>"

definition file_F2 :: SlackFile where
  "file_F2 = \<lparr>sf_Id = ''F2'', sf_Name = ''b.txt'', sf_UrlPrivate = ''http://x/f'',
              sf_UrlPrivateDownload = []\<rparr>"

definition post_legacy :: SlackPost where
  "post_legacy = \<lparr>Ts = ''1600.0001'', Subtype = ''file_share'', File = Some file_F1,
                  Files = Some [Some file_none, None]\<rparr>"

definition post_no_file :: SlackPost where
  "post_no_file = \<lparr>Ts = ''1600.0002'', Subtype = ''file_share'', File = None,
                   Files = Some [Some file_F1]\<rparr>"

definition post_files :: SlackPost where
  "post_files = \<lparr>Ts = ''1600.0003'', Subtype = [], File = None,
                 Files = Some [Some file_none, Some file_F2]\<rparr>"

definition entry_channels :: zip_File where
  "entry_channels = \<lparr>zf_Name = ''channels.json'', zf_Open = Inr (''[]'', None)\<rparr>"

definition entry_users :: zip_File where
  "entry_users = \<lparr>zf_Name = ''users.json'', zf_Open = Inr (''[]'', None)\<rparr>"

definition entry_general :: zip_File where
  "entry_general =
     \<lparr>zf_Name = ''general/2021-01-01.json'', zf_Open = Inr (''POSTS'', None)\<rparr>"

definition entry_random :: zip_File where
  "entry_random =
     \<lparr>zf_Name = ''random/2021-01-01.json'', zf_Open = Inr (''oops'', None)\<rparr>"

text \<open>An archive with a channel file of three posts and a plain file.\<close>

definition copy_env :: env where
  "copy_env = net_env
     \<lparr>zip_OpenReader := Inr [entry_general, entry_users],
      json_decode := (\<lambda>b. if b = ''POSTS'' then Inr [post_legacy, post_no_file, post_files]
                              else Inl ''invalid character'')\<rparr>"

text \<open>An archive whose second entry is a channel file that the decoder rejects.\<close>

definition bad_json_env :: env where
  "bad_json_env =
     quiet_env\<lparr>zip_OpenReader := Inr [entry_channels, entry_random, entry_users]\<rparr>"

text \<open>An output archive that cannot be closed.\<close>

definition close_fail_env :: env where
  "close_fail_env = quiet_env
     \<lparr>zip_OpenReader := Inr [entry_users], zip_close_err := (\<lambda>w. Some ''disk full'')\<rparr>"

text \<open>An archive whose first entry is a channel file that holds the JSON value \<open>null\<close>,
  with a decoder that rejects everything else.\<close>

definition entry_null :: zip_File where
  "entry_null = \<lparr>zf_Name = ''general/2021-01-03.json'', zf_Open = Inr (''null'', None)\<rparr>"

definition null_env :: env where
  "null_env = quiet_env
     \<lparr>zip_OpenReader := Inr [entry_null, entry_users],
      json_decode := (\<lambda>b. Inl ''invalid character'')\<rparr>"

text \<open>Environments for the other failures: no input archive, no output archive, an entry
  that cannot be opened, and a writer that creates no entry.\<close>

definition no_input_env :: env where
  "no_input_env = quiet_env\<lparr>zip_OpenReader := Inl ''no such file''\<rparr>"

definition no_output_env :: env where
  "no_output_env = quiet_env\<lparr>os_Create_err := Some ''permission denied''\<rparr>"

definition entry_broken :: zip_File where
  "entry_broken = \<lparr>zf_Name = ''broken.bin'', zf_Open = Inl ''unsupported compression''\<rparr>"

definition broken_entry_env :: env where
  "broken_entry_env = quiet_env\<lparr>zip_OpenReader := Inr [entry_users, entry_broken]\<rparr>"

definition no_create_env :: env where
  "no_create_env = quiet_env
     \<lparr>zip_OpenReader := Inr [entry_users], zip_create_err := (\<lambda>w n. Some ''disk full'')\<rparr>"

section \<open>Properties\<close>

subsection \<open>Splitting names\<close>

lemma strings_Split_not_Nil: "strings_Split s c \<noteq> []"
  by (induction s) (auto split: list.splits)

lemma strings_Split_no_sep: "c \<notin> set s \<Longrightarrow> strings_Split s c = [s]"
  by (induction s) auto

lemma strings_Split_append:
  "c \<notin> set a \<Longrightarrow> strings_Split (a @ c # b) c = a # strings_Split b c"
  by (induction a) auto

lemma strings_Split_single: "strings_Split s c = [a] \<Longrightarrow> s = a \<and> c \<notin> set a"
proof (induction s arbitrary: a)
  case Nil
  then show ?case by simp
next
  case (Cons x xs)
  then show ?case
    by (auto split: if_splits list.splits simp: strings_Split_not_Nil)
qed

lemma strings_Split_two:
  "strings_Split s c = [a, b] \<longleftrightarrow> s = a @ c # b \<and> c \<notin> set a \<and> c \<notin> set b"
proof
  show "strings_Split s c = [a, b] \<Longrightarrow> s = a @ c # b \<and> c \<notin> set a \<and> c \<notin> set b"
  proof (induction s arbitrary: a)
    case Nil
    then show ?case by simp
  next
    case (Cons x xs)
    show ?case
    proof (cases "x = c")
      case True
      with Cons.prems have "a = []" "strings_Split xs c = [b]" by auto
      with True strings_Split_single[of xs c b] show ?thesis by auto
    next
      case False
      with Cons.prems obtain a' where "a = x # a'" "strings_Split xs c = [a', b]"
        by (auto split: list.splits)
      with Cons.IH[of a'] False show ?thesis by auto
    qed
  qed
next
  assume "s = a @ c # b \<and> c \<notin> set a \<and> c \<notin> set b"
  then show "strings_Split s c = [a, b]"
    by (simp add: strings_Split_append strings_Split_no_sep)
qed

lemma strings_HasPrefix_iff: "strings_HasPrefix s p \<longleftrightarrow> prefix p s"
  unfolding strings_HasPrefix_def
  by (metis append_eq_conv_conj prefix_def append_take_drop_id prefix_length_le)

lemma strings_HasSuffix_iff: "strings_HasSuffix s suf \<longleftrightarrow> suffix suf s"
  unfolding strings_HasSuffix_def
  by (metis append_take_drop_id same_append_eq suffix_drop suffix_length_le suffix_take)

lemma length_two_iff: "length xs = 2 \<longleftrightarrow> (\<exists>a b. xs = [a, b])"
  by (cases xs; cases "tl xs"; cases "tl (tl xs)") auto

lemma isChannelFile_iff:
  "isChannelFile name \<longleftrightarrow>
     (\<exists>seg1 seg2. name = seg1 @ ''/'' @ seg2 \<and> CHR ''/'' \<notin> set seg1 \<and> CHR ''/'' \<notin> set seg2 \<and>
        \<not> prefix ''__'' seg1 \<and> suffix ''.json'' seg2)"
proof
  assume "isChannelFile name"
  then obtain a b where ab: "strings_Split name CHR ''/'' = [a, b]"
    and p: "\<not> prefix ''__'' a" and s: "suffix ''.json'' b"
    unfolding isChannelFile_def Let_def length_two_iff
    by (auto simp: strings_HasPrefix_iff strings_HasSuffix_iff)
  from ab have "name = a @ ''/'' @ b \<and> CHR ''/'' \<notin> set a \<and> CHR ''/'' \<notin> set b"
    by (simp add: strings_Split_two)
  with p s show "\<exists>seg1 seg2. name = seg1 @ ''/'' @ seg2 \<and> CHR ''/'' \<notin> set seg1 \<and>
      CHR ''/'' \<notin> set seg2 \<and> \<not> prefix ''__'' seg1 \<and> suffix ''.json'' seg2"
    by blast
next
  assume "\<exists>seg1 seg2. name = seg1 @ ''/'' @ seg2 \<and> CHR ''/'' \<notin> set seg1 \<and>
      CHR ''/'' \<notin> set seg2 \<and> \<not> prefix ''__'' seg1 \<and> suffix ''.json'' seg2"
  then obtain a b where n: "name = a @ CHR ''/'' # b"
    and "CHR ''/'' \<notin> set a" "CHR ''/'' \<notin> set b"
    and p: "\<not> prefix ''__'' a" and s: "suffix ''.json'' b"
    by auto
  then have "strings_Split name CHR ''/'' = [a, b]"
    by (simp add: strings_Split_two)
  with p s show "isChannelFile name"
    unfolding isChannelFile_def Let_def
    by (simp add: strings_HasPrefix_iff strings_HasSuffix_iff)
qed

subsection \<open>Paths\<close>

lemma strings_Split_snoc:
  "c \<notin> set n \<Longrightarrow> strings_Split (a @ c # n) c = strings_Split a c @ [n]"
proof (induction a)
  case Nil
  then show ?case by (simp add: strings_Split_no_sep)
next
  case (Cons x xs)
  then show ?case
    by (cases "strings_Split xs c") (auto simp: strings_Split_not_Nil)
qed

lemma strings_Join_snoc:
  "strings_Join (S @ [n]) sep = (if S = [] then n else strings_Join S sep @ sep @ n)"
  by (induction S sep rule: strings_Join.induct) auto

lemma filepath_Clean_last_element:
  assumes "strings_Split p CHR ''/'' = els @ [n]" "n \<noteq> []" "n \<noteq> ''.''" "n \<noteq> ''..''"
  shows "\<exists>q. filepath_Clean p = q @ n \<and> (q = [] \<or> last q = CHR ''/'')"
proof -
  let ?r = "hd p = CHR ''/''"
  let ?S = "foldl (clean_step ?r) [] els"
  have p: "p \<noteq> []" using assms by auto
  have f: "foldl (clean_step ?r) [] (strings_Split p CHR ''/'') = ?S @ [n]"
    using assms by (simp add: clean_step_def)
  have "filepath_Clean p =
          ((if ?r then ''/'' else []) @ (if ?S = [] then [] else strings_Join ?S ''/'' @ ''/'')) @ n"
    using p assms(2) by (simp add: filepath_Clean_def Let_def f strings_Join_snoc)
  moreover have "(if ?r then ''/'' else []) @ (if ?S = [] then [] else strings_Join ?S ''/'' @ ''/'') = [] \<or>
     last ((if ?r then ''/'' else []) @ (if ?S = [] then [] else strings_Join ?S ''/'' @ ''/'')) = CHR ''/''"
    by auto
  ultimately show ?thesis by blast
qed

lemma filepath_Base_append:
  assumes "CHR ''/'' \<notin> set n" "n \<noteq> []" "q = [] \<or> last q = CHR ''/''"
  shows "filepath_Base (q @ n) = n"
proof -
  have l: "last n \<noteq> CHR ''/''" using assms(1,2) last_in_set by metis
  have d: "dropWhile (\<lambda>c. c = CHR ''/'') (rev n @ rev q) = rev n @ rev q"
    using assms(2) l by (cases "rev n") (auto simp: last_rev hd_rev)
  have t: "takeWhile (\<lambda>c. c \<noteq> CHR ''/'') (rev n @ rev q) = rev n"
  proof (cases "q = []")
    case True
    then show ?thesis using assms(1) by auto
  next
    case False
    with assms(3) have "hd (rev q) = CHR ''/''" by (simp add: hd_rev)
    moreover from False have "rev q \<noteq> []" by simp
    ultimately have "takeWhile (\<lambda>c. c \<noteq> CHR ''/'') (rev q) = []"
      by (cases "rev q") auto
    moreover have "takeWhile (\<lambda>c. c \<noteq> CHR ''/'') (rev n @ rev q) =
        rev n @ takeWhile (\<lambda>c. c \<noteq> CHR ''/'') (rev q)"
      by (rule takeWhile_append2) (use assms(1) in auto)
    ultimately show ?thesis by simp
  qed
  show ?thesis
    using assms(2) by (simp add: filepath_Base_def Let_def d t)
qed

lemma filepath_Base_Join:
  assumes "CHR ''/'' \<notin> set n" "n \<noteq> []" "n \<noteq> ''.''" "n \<noteq> ''..''"
  shows "filepath_Base (filepath_Join dir n) = n"
proof -
  have "\<exists>q. filepath_Join dir n = q @ n \<and> (q = [] \<or> last q = CHR ''/'')"
  proof (cases "dir = []")
    case True
    have "strings_Split n CHR ''/'' = [] @ [n]"
      using assms(1) by (simp add: strings_Split_no_sep)
    from filepath_Clean_last_element[OF this assms(2-4)] True assms(2)
    show ?thesis by (simp add: filepath_Join_def)
  next
    case False
    have "strings_Split (dir @ ''/'' @ n) CHR ''/'' = strings_Split dir CHR ''/'' @ [n]"
      using assms(1) by (simp add: strings_Split_snoc)
    from filepath_Clean_last_element[OF this assms(2-4)] False
    show ?thesis by (simp add: filepath_Join_def)
  qed
  then obtain q where "filepath_Join dir n = q @ n" "q = [] \<or> last q = CHR ''/''"
    by blast
  then show ?thesis
    using filepath_Base_append[OF assms(1,2), of q] by simp
qed

lemma deriveName_example_stem:
  "filepath_Ext ''My File!!.png'' = ''.png'' \<and>
   replaceAllSpacePunct (strings_TrimSuffix ''My File!!.png'' ''.png'') = ''My_File__''"
  by code_simp

lemma deriveName_My_File:
  assumes "CHR ''/'' \<notin> set fid"
  shows "deriveName fid (filepath_Join dir (fid @ ''-My File!!.png'')) = ''My_File__.png''"
proof -
  have b: "filepath_Base (filepath_Join dir (fid @ ''-My File!!.png'')) = fid @ ''-My File!!.png''"
    using assms by (intro filepath_Base_Join) auto
  have p: "strings_HasPrefix (fid @ ''-My File!!.png'') (fid @ ''-'')"
    by (simp add: strings_HasPrefix_def)
  have t: "strings_TrimPrefix (fid @ ''-My File!!.png'') (fid @ ''-'') = ''My File!!.png''"
    unfolding strings_TrimPrefix_def using p by simp
  show ?thesis
    unfolding deriveName_def Let_def b using p t deriveName_example_stem by simp
qed

subsection \<open>Local lookup\<close>

lemma filepath_Clean_not_Nil: "filepath_Clean p \<noteq> []"
  by (simp add: filepath_Clean_def Let_def)

lemma findLocalAttachment_not_Nil: "findLocalAttachment env i d = Inr p \<Longrightarrow> p \<noteq> []"
  by (auto simp: findLocalAttachment_def filepath_Join_def filepath_Clean_not_Nil
           split: if_splits sum.splits option.splits)

lemma findLocalAttachment_no_dir: "findLocalAttachment env i [] = Inl ''Local attachment directory not configured.''"
  by (simp add: findLocalAttachment_def)

lemma lookupLocal_eq:
  "lookupLocal env st file =
     (case (if sf_Id file \<noteq> [] \<and> localAttachmentsDir env \<noteq> []
            then findLocalAttachment env (sf_Id file) (localAttachmentsDir env)
            else Inl []) of
        Inr p \<Rightarrow>
          (p,
           (if sf_Name file = [] then file\<lparr>sf_Name := deriveName (sf_Id file) p\<rparr> else file),
           st\<lparr>logged := logged st @ [''++++++ Find local attachments: '' @ sf_Id file,
                                      ''++++++ Local file path: '' @ p]\<rparr>)
      | Inl e \<Rightarrow> ([], file, st\<lparr>logged := logged st @ [''++++++ Local file path: '']\<rparr>))"
  by (simp add: lookupLocal_def log_Print_def split: sum.splits)

lemma lookupLocal_state:
  assumes "lookupLocal env st0 file = (p, file', st0')"
  shows "\<exists>msgs. lookupLocal env st file = (p, file', st\<lparr>logged := logged st @ msgs\<rparr>)"
  using assms unfolding lookupLocal_eq by (auto split: sum.splits if_splits)

lemma lookupLocal_logged:
  assumes "lookupLocal env st0 file = (p, file', st0')"
  shows "lookupLocal env st file =
           (p, file',
            st\<lparr>logged := logged st @
                   (if p = [] then [] else [''++++++ Find local attachments: '' @ sf_Id file]) @
                   [''++++++ Local file path: '' @ p]\<rparr>)"
  using assms unfolding lookupLocal_eq
  by (auto split: sum.splits if_splits dest: findLocalAttachment_not_Nil)

lemma lookupLocal_none:
  assumes "lookupLocal env st0 file = ([], file', st0')"
  shows "lookupLocal env st file = ([], file, st\<lparr>logged := logged st @ [''++++++ Local file path: '']\<rparr>)"
  using assms unfolding lookupLocal_eq
  by (auto split: sum.splits if_splits dest: findLocalAttachment_not_Nil)

lemma lookupLocal_fields:
  assumes "lookupLocal env st0 file = (p, file', st0')"
  shows "sf_Id file' = sf_Id file" "sf_UrlPrivate file' = sf_UrlPrivate file"
    "sf_UrlPrivateDownload file' = sf_UrlPrivateDownload file"
  using assms unfolding lookupLocal_eq by (auto split: sum.splits if_splits)

lemma log_Print_neq: "log_Print st m \<noteq> st"
proof
  assume "log_Print st m = st"
  then have "logged (log_Print st m) = logged st" by simp
  then show False by (simp add: log_Print_def)
qed

subsection \<open>The archive and the requests\<close>

lemma log_Print_fields [simp]:
  "zipw (log_Print st m) = zipw st" "requests (log_Print st m) = requests st"
  "stdout (log_Print st m) = stdout st" "closed (log_Print st m) = closed st"
  "logged (log_Print st m) = logged st @ [m]"
  by (simp_all add: log_Print_def)

lemma fmt_Printf_fields [simp]:
  "zipw (fmt_Printf st m) = zipw st" "requests (fmt_Printf st m) = requests st"
  "logged (fmt_Printf st m) = logged st" "closed (fmt_Printf st m) = closed st"
  "stdout (fmt_Printf st m) = stdout st @ [m]"
  by (simp_all add: fmt_Printf_def)

lemma append_last_snoc: "append_last (w @ [(n, c)]) b = w @ [(n, c @ b)]"
proof (induction w)
  case Nil
  then show ?case by simp
next
  case (Cons e w)
  then show ?case by (cases "w @ [(n, c)]") auto
qed

lemma zip_Create_Inr:
  "zip_Create env st name = Inr st' \<longleftrightarrow>
     zip_create_err env (zipw st) name = None \<and> st' = st\<lparr>zipw := zipw st @ [(name, [])]\<rparr>"
  by (auto simp: zip_Create_def split: option.splits)

lemma zip_Create_Inl:
  "zip_Create env st name = Inl e \<longleftrightarrow> zip_create_err env (zipw st) name = Some e"
  by (auto simp: zip_Create_def split: option.splits)

text \<open>The bytes that a write of b adds to the open entry.\<close>

lemma zip_Write_zipw:
  "zipw st = w @ [(n, c)] \<Longrightarrow>
   zipw (fst (zip_Write env st b)) =
     w @ [(n, c @ (case zip_write_err env (w @ [(n, c)]) b of
                     None \<Rightarrow> b | Some (k, e) \<Rightarrow> take k b))]"
  by (simp add: zip_Write_def append_last_snoc split: option.splits)

lemma zip_Write_requests [simp]: "requests (fst (zip_Write env st b)) = requests st"
  by (simp add: zip_Write_def split: option.splits)

lemma io_Copy_fst: "fst (io_Copy env st src) = fst (zip_Write env st (fst src))"
  by (simp add: io_Copy_def split: prod.splits option.splits)

lemma io_Copy_requests: "io_Copy env st src = (st', e) \<Longrightarrow> requests st' = requests st"
  using io_Copy_fst[of env st src] zip_Write_requests[of env st "fst src"] by simp

lemma localFallback_requests [simp]:
  "requests (localFallback env st file url) = requests st"
  unfolding localFallback_def
  by (auto split: sum.splits prod.splits option.splits dest: io_Copy_requests)

lemma fetchFile_requests:
  "http_NewRequest_ok env url \<Longrightarrow>
   requests (fetchFile env st file url token) =
     requests st @ [(url, if token \<noteq> [] then Some (''Bearer '' @ token) else None)]"
  unfolding fetchFile_def Let_def
  by (auto split: sum.splits prod.splits option.splits dest: io_Copy_requests)

lemma io_Copy_zipw:
  "zipw st = w @ [(n, c)] \<Longrightarrow> io_Copy env st src = (st', e) \<Longrightarrow>
   zipw st' =
     w @ [(n, c @ (case zip_write_err env (w @ [(n, c)]) (fst src) of
                     None \<Rightarrow> fst src | Some (k, e) \<Rightarrow> take k (fst src)))]"
  using io_Copy_fst[of env st src] zip_Write_zipw[of st w n c env "fst src"] by simp

lemma io_Copy_frame:
  assumes "io_Copy env st src = (st', e)"
  shows "stdout st' = stdout st" "logged st' = logged st"
    "e = (case zip_write_err env (zipw st) (fst src) of None \<Rightarrow> snd src | Some (k, err) \<Rightarrow> Some err)"
  using assms
  by (auto simp: io_Copy_def zip_Write_def split: option.splits prod.splits)

lemma localFallback_zipw:
  assumes "zipw st = w @ [(n, c)]"
  shows "zipw (localFallback env st file url) =
           w @ [(n, c @ (case findLocalAttachment env (sf_Id file) (localAttachmentsDir env) of
                     Inl e \<Rightarrow> []
                   | Inr p \<Rightarrow>
                       (case os_Open env p of
                          Inl e \<Rightarrow> []
                        | Inr (data, rerr) \<Rightarrow>
                            (case zip_write_err env (w @ [(n, c)]) data of
                               None \<Rightarrow> data
                             | Some (k, e) \<Rightarrow> take k data))))]"
  unfolding localFallback_def
  using assms
  by (auto split: sum.splits prod.splits option.splits dest!: io_Copy_zipw[OF assms])

lemma fetchFile_cases:
  assumes "http_NewRequest_ok env url"
    and auth_def: "auth = (if token \<noteq> [] then Some (''Bearer '' @ token) else None)"
    and st1_def: "st1 = st\<lparr>requests := requests st @ [(url, auth)]\<rparr>"
  shows "fetchFile env st file url token =
           (case client_Do env url auth of
              Inl err \<Rightarrow> localFallback env st1 file url
            | Inr (statusCode, body) \<Rightarrow>
                if statusCode \<noteq> 200 then localFallback env st1 file url
                else
                  (case io_Copy env st1 body of
                     (st', cerr) \<Rightarrow>
                       fmt_Printf
                         (case cerr of
                            Some err \<Rightarrow>
                              log_Print st'
                                (''++++++ Failed to write the downloaded file to the output archive: '' @
                                 url @ [CHR 0x0A, CHR 0x0A] @ err @ [CHR 0x0A])
                          | None \<Rightarrow> st')
                         (''Downloaded attachment into output archive: '' @ sf_Id file @
                          ''.'' @ [CHR 0x0A])))"
  using assms(1) unfolding fetchFile_def Let_def auth_def st1_def by simp

lemma fetchFile_zipw:
  assumes "zipw st = w @ [(n, c)]"
  shows "\<exists>c'. zipw (fetchFile env st file url token) = w @ [(n, c')]"
proof (cases "http_NewRequest_ok env url")
  case False
  then show ?thesis using assms by (simp add: fetchFile_def)
next
  case True
  let ?auth = "if token \<noteq> [] then Some (''Bearer '' @ token) else None"
  let ?st1 = "st\<lparr>requests := requests st @ [(url, ?auth)]\<rparr>"
  have z: "zipw ?st1 = w @ [(n, c)]" using assms by simp
  have fb: "\<exists>c'. zipw (localFallback env ?st1 file url) = w @ [(n, c')]"
    using localFallback_zipw[OF z] by blast
  show ?thesis
  proof (cases "client_Do env url ?auth")
    case (Inl err)
    then show ?thesis using fb by (simp add: fetchFile_cases[OF True refl refl])
  next
    case (Inr r)
    obtain code body where r: "r = (code, body)" by (cases r)
    show ?thesis
    proof (cases "code = 200")
      case False
      then show ?thesis using fb Inr r by (simp add: fetchFile_cases[OF True refl refl])
    next
      case c200: True
      obtain st' cerr where cp: "io_Copy env ?st1 body = (st', cerr)"
        by (cases "io_Copy env ?st1 body")
      from io_Copy_zipw[OF z cp] have "\<exists>c'. zipw st' = w @ [(n, c')]" by blast
      then show ?thesis
        using Inr r c200 cp by (auto simp: fetchFile_cases[OF True refl refl] split: option.splits)
    qed
  qed
qed

lemma fetchFile_failed_download:
  assumes "zipw st = w @ [(n, [])]"
    and "http_NewRequest_ok env url"
    and "case client_Do env url (if token \<noteq> [] then Some (''Bearer '' @ token) else None) of
           Inl e \<Rightarrow> True | Inr (code, body) \<Rightarrow> code \<noteq> 200"
  shows "fetchFile env st file url token =
           localFallback env (st\<lparr>requests := requests st @
              [(url, if token \<noteq> [] then Some (''Bearer '' @ token) else None)]\<rparr>) file url"
  using assms(3) unfolding fetchFile_cases[OF assms(2) refl refl]
  by (auto split: sum.splits)

lemma findLocalAttachment_Inr_iff:
  "findLocalAttachment env fid dir = Inr p \<longleftrightarrow>
     dir \<noteq> [] \<and>
     (\<exists>names f. ioutil_ReadDir env dir = Inr names \<and>
        find (\<lambda>f. strings_HasPrefix f fid) names = Some f \<and> p = filepath_Join dir f)"
  by (auto simp: findLocalAttachment_def split: sum.splits option.splits)

lemma processFile_reaches_fetch:
  assumes res: "lookupLocal env st0 file = (localFilePath, file', st0')"
    and reach: "localFilePath \<noteq> [] \<or> \<not> missingProperties file'"
    and create: "zip_create_err env (zipw st)
                   (''__uploads/'' @ sf_Id file' @ ''/'' @ sf_Name file') = None"
  shows "\<exists>st1. zipw st1 = zipw st @ [(''__uploads/'' @ sf_Id file' @ ''/'' @ sf_Name file', [])] \<and>
               requests st1 = requests st \<and> stdout st1 = stdout st \<and>
               last (logged st1) = ''++++++ Local file path: '' @ localFilePath \<and>
               processFile env st ts file token =
                 fetchFile env st1 file' (chooseDownloadUrl file') token"
proof -
  let ?st1 = "log_Print (log_Print st [CHR 0x0A])
                (''++++++ Processing file: '' @ sf_Id file @ [CHR 0x0A])"
  define msgs where
    "msgs = (if localFilePath = [] then []
             else [''++++++ Find local attachments: '' @ sf_Id file])"
  have l: "lookupLocal env ?st1 file =
      (localFilePath, file',
       ?st1\<lparr>logged := logged ?st1 @ msgs @ [''++++++ Local file path: '' @ localFilePath]\<rparr>)"
    unfolding msgs_def by (rule lookupLocal_logged[OF res])
  let ?st2 = "?st1\<lparr>logged := logged ?st1 @ msgs @ [''++++++ Local file path: '' @ localFilePath]\<rparr>"
  let ?path = "''__uploads/'' @ sf_Id file' @ ''/'' @ sf_Name file'"
  let ?st3 = "?st2\<lparr>zipw := zipw ?st2 @ [(?path, [])]\<rparr>"
  have c: "zip_Create env ?st2 ?path = Inr ?st3"
    using create by (simp add: zip_Create_def)
  have "processFile env st ts file token =
          fetchFile env ?st3 file' (chooseDownloadUrl file') token"
    unfolding processFile_def Let_def l prod.case c using reach by auto
  moreover have "zipw ?st3 = zipw st @ [(?path, [])]" "requests ?st3 = requests st"
    "stdout ?st3 = stdout st"
    by simp_all
  moreover have "last (logged ?st3) = ''++++++ Local file path: '' @ localFilePath"
    by (simp add: log_Print_def)
  ultimately show ?thesis by blast
qed

lemma processFile_zipw: "\<exists>ext. zipw (processFile env st ts file token) = zipw st @ ext"
proof -
  let ?st1 = "log_Print (log_Print st [CHR 0x0A])
                (''++++++ Processing file: '' @ sf_Id file @ [CHR 0x0A])"
  obtain p file' st2 where l: "lookupLocal env ?st1 file = (p, file', st2)"
    by (cases "lookupLocal env ?st1 file")
  then obtain msgs where st2: "st2 = ?st1\<lparr>logged := logged ?st1 @ msgs\<rparr>"
    using lookupLocal_state[OF l, of ?st1] by auto
  then have z2: "zipw st2 = zipw st" by simp
  let ?path = "''__uploads/'' @ sf_Id file' @ ''/'' @ sf_Name file'"
  show ?thesis
  proof (cases "p = [] \<and> missingProperties file'")
    case True
    then show ?thesis
      unfolding processFile_def Let_def l prod.case using z2 by simp
  next
    case False
    show ?thesis
    proof (cases "zip_Create env st2 ?path")
      case (Inl err)
      then show ?thesis
        unfolding processFile_def Let_def l prod.case using z2 False by auto
    next
      case (Inr st3)
      then have "zipw st3 = zipw st @ [(?path, [])]"
        using z2 by (auto simp: zip_Create_Inr)
      from fetchFile_zipw[OF this]
      obtain c' where "zipw (fetchFile env st3 file' (chooseDownloadUrl file') token) =
          zipw st @ [(?path, c')]" by blast
      then show ?thesis
        unfolding processFile_def Let_def l prod.case using False Inr by auto
    qed
  qed
qed

lemma processFiles_zipw:
  "processFiles env st ts fs token = Inr st' \<Longrightarrow> \<exists>ext. zipw st' = zipw st @ ext"
proof (induction fs arbitrary: st)
  case Nil
  then show ?case by simp
next
  case (Cons f fs)
  show ?case
  proof (cases f)
    case None
    with Cons.prems show ?thesis by simp
  next
    case (Some fl)
    with Cons.prems have "processFiles env (processFile env st ts fl token) ts fs token = Inr st'"
      by simp
    from Cons.IH[OF this] obtain e2 where "zipw st' = zipw (processFile env st ts fl token) @ e2"
      by blast
    moreover obtain e1 where "zipw (processFile env st ts fl token) = zipw st @ e1"
      using processFile_zipw by blast
    ultimately show ?thesis by simp
  qed
qed

lemma processPost_zipw:
  "processPost env st post token = Inr st' \<Longrightarrow> \<exists>ext. zipw st' = zipw st @ ext"
  unfolding processPost_def processPostFiles_def
  by (auto split: if_splits option.splits dest: processFiles_zipw simp: processFile_zipw)

lemma processPosts_zipw:
  "processPosts env st posts token = Inr st' \<Longrightarrow> \<exists>ext. zipw st' = zipw st @ ext"
proof (induction posts arbitrary: st)
  case Nil
  then show ?case by simp
next
  case (Cons post posts)
  then obtain st1 where 1: "processPost env st post token = Inr st1"
    and 2: "processPosts env st1 posts token = Inr st'"
    by (auto split: sum.splits)
  from processPost_zipw[OF 1] Cons.IH[OF 2] show ?case by auto
qed

lemma processChannelFile_zipw:
  "processChannelFile env st file inBuf token = Inr st' \<Longrightarrow> \<exists>ext. zipw st' = zipw st @ ext"
  unfolding processChannelFile_def
  by (auto split: sum.splits dest: processPosts_zipw)

lemma copyEntry_Inr:
  assumes "copyEntry env st file = Inr (st', inBuf)"
  shows "\<exists>rerr. zf_Open file = Inr (inBuf, rerr) \<and>
           zipw st' = zipw st @
             [(zf_Name file,
               case zip_write_err env (zipw st @ [(zf_Name file, [])]) inBuf of
                 None \<Rightarrow> inBuf | Some (k, e) \<Rightarrow> take k inBuf)]"
  using assms unfolding copyEntry_def Let_def
  by (auto simp: zip_Create_def zip_Write_def append_last_snoc
           split: sum.splits prod.splits option.splits)

lemma fetchEntry_zipw:
  assumes "fetchEntry env st file = Inr st'"
  shows "\<exists>inBuf rerr ext. zf_Open file = Inr (inBuf, rerr) \<and>
           zipw st' = zipw st @
             [(zf_Name file,
               case zip_write_err env (zipw st @ [(zf_Name file, [])]) inBuf of
                 None \<Rightarrow> inBuf | Some (k, e) \<Rightarrow> take k inBuf)] @ ext"
proof -
  from assms obtain st1 inBuf where c: "copyEntry env st file = Inr (st1, inBuf)"
    by (auto simp: fetchEntry_def split: sum.splits)
  from copyEntry_Inr[OF c] obtain rerr where o: "zf_Open file = Inr (inBuf, rerr)"
    and z: "zipw st1 = zipw st @
             [(zf_Name file,
               case zip_write_err env (zipw st @ [(zf_Name file, [])]) inBuf of
                 None \<Rightarrow> inBuf | Some (k, e) \<Rightarrow> take k inBuf)]"
    by blast
  have "\<exists>ext. zipw st' = zipw st1 @ ext"
  proof (cases "isChannelFile (zf_Name file)")
    case True
    with assms c have "processChannelFile env st1 file inBuf (attachmentsApiToken env) = Inr st'"
      by (auto simp: fetchEntry_def exitOnError_def split: sum.splits abort.splits prod.splits)
    then show ?thesis by (rule processChannelFile_zipw)
  next
    case False
    with assms c show ?thesis by (simp add: fetchEntry_def)
  qed
  with o z show ?thesis by auto
qed

lemma fetchEntries_zipw:
  "fetchEntries env st files = Inr st' \<Longrightarrow> \<exists>ext. zipw st' = zipw st @ ext"
proof (induction files arbitrary: st)
  case Nil
  then show ?case by simp
next
  case (Cons f files)
  then obtain st1 where 1: "fetchEntry env st f = Inr st1"
    and 2: "fetchEntries env st1 files = Inr st'"
    by (auto split: sum.splits)
  from fetchEntry_zipw[OF 1] Cons.IH[OF 2] show ?case by auto
qed


subsection \<open>The loop over the entries\<close>

lemma fetchEntries_append:
  "fetchEntries env st (xs @ ys) =
     (case fetchEntries env st xs of Inl a \<Rightarrow> Inl a | Inr st' \<Rightarrow> fetchEntries env st' ys)"
  by (induction xs arbitrary: st) (auto split: sum.splits)

lemma fetchEntries_copies_at:
  assumes "fetchEntries env st (before @ f # after) = Inr st'"
    and "fetchEntries env st before = Inr st1"
    and "zf_Open f = Inr (data, rerr)"
    and "zip_write_err env (zipw st1 @ [(zf_Name f, [])]) data = None"
  shows "(zf_Name f, data) \<in> set (zipw st')"
proof -
  from assms(1,2) have "fetchEntries env st1 (f # after) = Inr st'"
    by (simp add: fetchEntries_append)
  then obtain st2 where 1: "fetchEntry env st1 f = Inr st2"
    and 2: "fetchEntries env st2 after = Inr st'"
    by (auto split: sum.splits)
  from fetchEntry_zipw[OF 1] assms(3,4)
  have "(zf_Name f, data) \<in> set (zipw st2)" by auto
  moreover from fetchEntries_zipw[OF 2] obtain ext where "zipw st' = zipw st2 @ ext" by blast
  ultimately show ?thesis by simp
qed


lemma closeWriter_fields:
  "zipw (closeWriter env st) = zipw st"
  "closed (closeWriter env st) = (closed st \<or> zip_close_err env (zipw st) = None)"
  by (auto simp: closeWriter_def fmt_Printf_def split: option.splits)

subsection \<open>Unfolding the model on concrete inputs\<close>

lemmas model_defs = fetchAttachments_def closeWriter_def fetchEntry_def exitOnError_def
  copyEntry_def isChannelFile_def processChannelFile_def processPost_def processPostFiles_def
  processFile_def
  lookupLocal_def deriveName_def missingProperties_def chooseDownloadUrl_def fetchFile_def
  localFallback_def findLocalAttachment_def zip_Create_def zip_Write_def io_Copy_def
  log_Print_def fmt_Printf_def init_state_def strings_HasPrefix_def strings_HasSuffix_def
  strings_TrimPrefix_def strings_TrimSuffix_def filepath_Join_def filepath_Clean_def
  filepath_Base_def filepath_Ext_def clean_step_def replaceAllSpacePunct_def is_space_def
  is_punct_def is_json_space_def json_Unmarshal_def Let_def

lemmas example_defs = quiet_env_def net_env_def local_env_def copy_env_def bad_json_env_def
  close_fail_env_def file_none_def file_F1_def file_F1_local_def file_F2_def post_legacy_def
  post_no_file_def post_files_def entry_channels_def entry_users_def entry_general_def
  entry_random_def entry_null_def null_env_def no_input_env_def no_output_env_def
  entry_broken_def broken_entry_env_def no_create_env_def

section \<open>The claims\<close>

subsection \<open>C1: copy fidelity\<close>

text \<open>
  Claim C1, as amended. When the run returns normally and the output archive is closed
  without error, the archive is closed and every entry of the input archive that was read
  without error, and whose bytes the writer accepted when the run wrote them, is in it
  under its name with exactly its bytes, whatever happened to the attachments. Without
  the first condition the statement fails: the run exits on a channel file that does not
  parse, and the entries after it are never copied.
\<close>

theorem copy_fidelity:
  assumes "zip_OpenReader env = Inr (before @ f # after)"
    and "fetchAttachments env = Inr st"
    and "zip_close_err env (zipw st) = None"
    and "fetchEntries env init_state before = Inr st1"
    and "zf_Open f = Inr (data, None)"
    and "zip_write_err env (zipw st1 @ [(zf_Name f, [])]) data = None"
  shows "closed st \<and> (zf_Name f, data) \<in> set (zipw st)"
proof -
  from assms(1,2) obtain st2
    where 1: "fetchEntries env init_state (before @ f # after) = Inr st2"
    and st: "st = closeWriter env st2"
    by (auto simp: fetchAttachments_def split: option.splits sum.splits)
  have z: "zipw st = zipw st2"
    unfolding st by (rule closeWriter_fields)
  have "closed st"
    using assms(3) unfolding st closeWriter_fields by simp
  with fetchEntries_copies_at[OF 1 assms(4,5,6)] z show ?thesis by simp
qed

theorem copy_fidelity_witness:
  "zip_OpenReader copy_env = Inr ([entry_general] @ entry_users # []) \<and>
   zf_Open entry_users = Inr (''[]'', None) \<and>
   fetchAttachments copy_env =
     Inr \<lparr>zipw = [(''general/2021-01-01.json'', ''POSTS''), (''__uploads/F1/a.png'', ''DATA''),
                 (''__uploads/F2/b.txt'', []), (''users.json'', ''[]'')],
          closed = True,
          stdout = [''Downloaded attachment into output archive: F1.'' @ [CHR 0x0A]],
          logged = [[CHR 0x0A], ''++++++ Processing file: F1'' @ [CHR 0x0A],
                    ''++++++ Local file path: '',
                    ''++++++ file_share post has no File property: 1600.0002'' @ [CHR 0x0A],
                    [CHR 0x0A], ''++++++ Processing file: '' @ [CHR 0x0A],
                    ''++++++ Local file path: '',
                    ''++++++ file_share post has missing properties on its File object: 1600.0003'' @
                      [CHR 0x0A],
                    [CHR 0x0A], ''++++++ Processing file: F2'' @ [CHR 0x0A],
                    ''++++++ Local file path: '',
                    ''++++++ Download failed and no local attachment.: http://x/f''],
          requests = [(''http://x/d'', Some ''Bearer tok''),
                      (''http://x/f'', Some ''Bearer tok'')]\<rparr> \<and>
   (zf_Name entry_users, ''[]'') \<in>
     set [(''general/2021-01-01.json'', ''POSTS''), (''__uploads/F1/a.png'', ''DATA''),
          (''__uploads/F2/b.txt'', []), (''users.json'', ''[]'')]"
proof -
  let ?mid = "[(''general/2021-01-01.json'', ''POSTS''), (''__uploads/F1/a.png'', ''DATA''),
               (''__uploads/F2/b.txt'', [])]"
  let ?out = "?mid @ [(''users.json'', ''[]'')]"
  let ?so = "[''Downloaded attachment into output archive: F1.'' @ [CHR 0x0A]]"
  let ?lg = "[[CHR 0x0A], ''++++++ Processing file: F1'' @ [CHR 0x0A],
                    ''++++++ Local file path: '',
                    ''++++++ file_share post has no File property: 1600.0002'' @ [CHR 0x0A],
                    [CHR 0x0A], ''++++++ Processing file: '' @ [CHR 0x0A],
                    ''++++++ Local file path: '',
                    ''++++++ file_share post has missing properties on its File object: 1600.0003'' @
                      [CHR 0x0A],
                    [CHR 0x0A], ''++++++ Processing file: F2'' @ [CHR 0x0A],
                    ''++++++ Local file path: '',
                    ''++++++ Download failed and no local attachment.: http://x/f'']"
  let ?rq = "[(''http://x/d'', Some ''Bearer tok''), (''http://x/f'', Some ''Bearer tok'')]"
  let ?st1 = "\<lparr>zipw = ?mid, closed = False, stdout = ?so, logged = ?lg, requests = ?rq\<rparr>"
  let ?st = "\<lparr>zipw = ?out, closed = True, stdout = ?so, logged = ?lg, requests = ?rq\<rparr>"
  have 1: "zip_OpenReader copy_env = Inr ([entry_general] @ entry_users # [])"
    by (simp add: example_defs)
  have 2: "fetchAttachments copy_env = Inr ?st"
    by (simp add: model_defs example_defs)
  have 3: "zip_close_err copy_env (zipw ?st) = None"
    by (simp add: example_defs)
  have 4: "fetchEntries copy_env init_state [entry_general] = Inr ?st1"
    by (simp add: model_defs example_defs)
  have 5: "zf_Open entry_users = Inr (''[]'', None)"
    by (simp add: example_defs)
  have 6: "zip_write_err copy_env (zipw ?st1 @ [(zf_Name entry_users, [])]) ''[]'' = None"
    by (simp add: example_defs)
  from copy_fidelity[OF 1 2 3 4 5 6] have "(zf_Name entry_users, ''[]'') \<in> set ?out"
    by simp
  with 1 2 5 show ?thesis by simp
qed

text \<open>The claim as stated fails: the second entry does not parse, the run exits with
  status 1, and \<open>users.json\<close> is not in the output.\<close>

theorem later_entries_not_copied_counterexample:
  "zip_OpenReader bad_json_env = Inr [entry_channels, entry_random, entry_users] \<and>
   zf_Name entry_users = ''users.json'' \<and>
   fetchAttachments bad_json_env =
     Inl (Exit 1,
          \<lparr>zipw = [(''channels.json'', ''[]''), (''random/2021-01-01.json'', ''oops'')],
           closed = False,
           stdout = [''Couldn't parse the JSON file: random/2021-01-01.json'' @
                     [CHR 0x0A, CHR 0x0A] @ ''invalid character'' @ [CHR 0x0A]],
           logged = [], requests = []\<rparr>) \<and>
   ''users.json'' \<notin> fst ` set [(''channels.json'', ''[]''), (''random/2021-01-01.json'', ''oops'')]"
  by (simp add: model_defs example_defs)

subsection \<open>C2: the local fallback after a failed download\<close>

text \<open>
  Claim C2, as amended. For a descriptor that reaches the download, whose request can be
  built and whose download fails (an error, or a status other than 200), the entry
  \<open>__uploads/<id>/<name>\<close> is the last entry of the archive afterwards. When a local
  file matches the identifier and is opened and copied without error, the entry holds
  the bytes of that file and the use of the local file is printed. When no local file
  matches, or the local file cannot be opened, the entry stays empty, nothing is printed
  and the failure is the last line logged. When the copy fails part-way (the file cannot
  be read to its end, or the writer stops accepting bytes), the failure is logged as well
  and the entry keeps the bytes copied before the failure.
\<close>

theorem failed_download_local_fallback:
  assumes res: "lookupLocal env st0 file = (localFilePath, file', st0')"
    and reach: "localFilePath \<noteq> [] \<or> \<not> missingProperties file'"
    and create: "zip_create_err env (zipw st)
                   (''__uploads/'' @ sf_Id file' @ ''/'' @ sf_Name file') = None"
    and req: "http_NewRequest_ok env (chooseDownloadUrl file)"
    and fail: "case client_Do env (chooseDownloadUrl file)
                      (if token \<noteq> [] then Some (''Bearer '' @ token) else None) of
                 Inl e \<Rightarrow> True
               | Inr (statusCode, body) \<Rightarrow> statusCode \<noteq> 200"
  shows "let path = ''__uploads/'' @ sf_Id file' @ ''/'' @ sf_Name file';
             R = processFile env st ts file token;
             failed = ''++++++ Download failed and no local attachment.: '' @
                        chooseDownloadUrl file
         in case findLocalAttachment env (sf_Id file) (localAttachmentsDir env) of
              Inl e \<Rightarrow>
                zipw R = zipw st @ [(path, [])] \<and> stdout R = stdout st \<and>
                last (logged R) = failed
            | Inr p \<Rightarrow>
                (case os_Open env p of
                   Inl e \<Rightarrow>
                     zipw R = zipw st @ [(path, [])] \<and> stdout R = stdout st \<and>
                     last (logged R) =
                       ''++++++ Failed to open the local file: '' @ p @
                       [CHR 0x0A, CHR 0x0A] @ e @ [CHR 0x0A]
                 | Inr (data, rerr) \<Rightarrow>
                     (case (zip_write_err env (zipw st @ [(path, [])]) data, rerr) of
                        (None, None) \<Rightarrow>
                          zipw R = zipw st @ [(path, data)] \<and>
                          stdout R = stdout st @
                            [''Use local file: '' @ sf_Id file @ '' ('' @ p @ '')'' @ [CHR 0x0A]]
                      | (None, Some e) \<Rightarrow>
                          zipw R = zipw st @ [(path, data)] \<and> stdout R = stdout st \<and>
                          last (logged R) = failed
                      | (Some (k, e), r) \<Rightarrow>
                          zipw R = zipw st @ [(path, take k data)] \<and> stdout R = stdout st \<and>
                          last (logged R) = failed))"
proof -
  let ?path = "''__uploads/'' @ sf_Id file' @ ''/'' @ sf_Name file'"
  let ?auth = "if token \<noteq> [] then Some (''Bearer '' @ token) else None"
  let ?url = "chooseDownloadUrl file"
  have url: "chooseDownloadUrl file' = ?url"
    using lookupLocal_fields[OF res] by (simp add: chooseDownloadUrl_def)
  have fid: "sf_Id file' = sf_Id file"
    using lookupLocal_fields(1)[OF res] .
  from processFile_reaches_fetch[OF res reach create, of ts token]
  obtain st1 where z: "zipw st1 = zipw st @ [(?path, [])]"
    and so: "stdout st1 = stdout st"
    and p: "processFile env st ts file token = fetchFile env st1 file' ?url token"
    unfolding url by blast
  let ?st2 = "st1\<lparr>requests := requests st1 @ [(?url, ?auth)]\<rparr>"
  have z2: "zipw ?st2 = zipw st @ [(?path, [])]" and so2: "stdout ?st2 = stdout st"
    using z so by simp_all
  have R: "processFile env st ts file token = localFallback env ?st2 file' ?url"
    unfolding p by (rule fetchFile_failed_download[OF z req fail])
  show ?thesis
  proof (cases "findLocalAttachment env (sf_Id file) (localAttachmentsDir env)")
    case (Inl e)
    then show ?thesis
      unfolding Let_def R using z2 so2 by (simp add: localFallback_def fid)
  next
    case (Inr lp)
    show ?thesis
    proof (cases "os_Open env lp")
      case (Inl e)
      then show ?thesis
        unfolding Let_def R using Inr z2 so2 by (simp add: localFallback_def fid)
    next
      case o: (Inr src)
      obtain data rerr where src: "src = (data, rerr)" by (cases src)
      obtain st3 cerr where cp: "io_Copy env ?st2 src = (st3, cerr)"
        by (cases "io_Copy env ?st2 src")
      note fr = io_Copy_frame[OF cp] io_Copy_zipw[OF z2 cp]
      show ?thesis
        unfolding Let_def R using Inr o src cp fr z2 so2
        by (auto simp: localFallback_def fid split: option.splits)
    qed
  qed
qed

theorem failed_download_local_fallback_witness:
  "lookupLocal local_env init_state file_F1_local =
     (''att/F1-My File!!.png'', file_F1_local\<lparr>sf_Name := ''My_File__.png''\<rparr>,
      init_state\<lparr>logged := [''++++++ Find local attachments: F1'',
                                ''++++++ Local file path: att/F1-My File!!.png'']\<rparr>) \<and>
   client_Do local_env ''http://x/f'' (Some ''Bearer tok'') = Inr (404, ([], None)) \<and>
   findLocalAttachment local_env ''F1'' ''att'' = Inr ''att/F1-My File!!.png'' \<and>
   os_Open local_env ''att/F1-My File!!.png'' = Inr (''LOCAL'', None) \<and>
   zipw (processFile local_env init_state ''1600.0004'' file_F1_local ''tok'') =
     [(''__uploads/F1/My_File__.png'', ''LOCAL'')] \<and>
   stdout (processFile local_env init_state ''1600.0004'' file_F1_local ''tok'') =
     [''Use local file: F1 (att/F1-My File!!.png)'' @ [CHR 0x0A]]"
proof -
  let ?file' = "file_F1_local\<lparr>sf_Name := ''My_File__.png''\<rparr>"
  have res: "lookupLocal local_env init_state file_F1_local =
     (''att/F1-My File!!.png'', ?file',
      init_state\<lparr>logged := [''++++++ Find local attachments: F1'',
                                ''++++++ Local file path: att/F1-My File!!.png'']\<rparr>)"
    by (simp add: model_defs example_defs)
  have reach: "''att/F1-My File!!.png'' \<noteq> [] \<or> \<not> missingProperties ?file'"
    by simp
  have create: "zip_create_err local_env (zipw init_state)
                  (''__uploads/'' @ sf_Id ?file' @ ''/'' @ sf_Name ?file') = None"
    by (simp add: example_defs)
  have req: "http_NewRequest_ok local_env (chooseDownloadUrl file_F1_local)"
    by (simp add: example_defs)
  have do: "client_Do local_env ''http://x/f'' (Some ''Bearer tok'') = Inr (404, ([], None))"
    by (simp add: example_defs)
  have fail: "case client_Do local_env (chooseDownloadUrl file_F1_local)
                     (if ''tok'' \<noteq> [] then Some (''Bearer '' @ ''tok'') else None) of
                Inl e \<Rightarrow> True
              | Inr (statusCode, body) \<Rightarrow> statusCode \<noteq> 200"
    by (simp add: example_defs chooseDownloadUrl_def)
  have op: "os_Open local_env ''att/F1-My File!!.png'' = Inr (''LOCAL'', None)"
    by (simp add: example_defs)
  have find: "findLocalAttachment local_env (sf_Id file_F1_local) (localAttachmentsDir local_env) =
                Inr ''att/F1-My File!!.png''"
    by (simp add: model_defs example_defs)
  have find': "findLocalAttachment local_env ''F1'' ''att'' = Inr ''att/F1-My File!!.png''"
    using find by (simp add: example_defs)
  have w: "zip_write_err local_env x ''LOCAL'' = None" for x
    by (simp add: example_defs)
  from failed_download_local_fallback[OF res reach create req fail, of "''1600.0004''"]
  have "zipw (processFile local_env init_state ''1600.0004'' file_F1_local ''tok'') =
          [(''__uploads/F1/My_File__.png'', ''LOCAL'')] \<and>
        stdout (processFile local_env init_state ''1600.0004'' file_F1_local ''tok'') =
          [''Use local file: F1 (att/F1-My File!!.png)'' @ [CHR 0x0A]]"
    unfolding Let_def find by (simp add: op w init_state_def file_F1_local_def)
  with res do op find' show ?thesis by simp
qed

text \<open>The claim as stated fails where the copy of the local file stops part-way: the
  download of \<open>F2\<close> answers 404, the local file \<open>F2-b.txt\<close> delivers two bytes and then
  a read error, the fallback is logged as failed, and the entry holds the two bytes: it
  is neither empty nor the whole local file.\<close>

theorem partial_fallback_counterexample:
  "client_Do local_env ''http://x/f'' (Some ''Bearer tok'') = Inr (404, ([], None)) \<and>
   findLocalAttachment local_env ''F2'' ''att'' = Inr ''att/F2-b.txt'' \<and>
   os_Open local_env ''att/F2-b.txt'' = Inr (''AB'', Some ''input/output error'') \<and>
   processFile local_env init_state ''1600.0003'' file_F2 ''tok'' =
     \<lparr>zipw = [(''__uploads/F2/b.txt'', ''AB'')], closed = False, stdout = [],
      logged = [[CHR 0x0A], ''++++++ Processing file: F2'' @ [CHR 0x0A],
                ''++++++ Find local attachments: F2'',
                ''++++++ Local file path: att/F2-b.txt'',
                ''++++++ Download failed and no local attachment.: http://x/f''],
      requests = [(''http://x/f'', Some ''Bearer tok'')]\<rparr>"
  by (simp add: model_defs example_defs)

subsection \<open>C3: which entries are parsed\<close>

text \<open>
  Claim C3. An entry is handed to \<open>processChannelFile\<close> exactly when its name consists of
  two segments separated by one \<open>/\<close>, the first segment does not start with \<open>__\<close> and
  the second ends with \<open>.json\<close>; for every other entry the loop body is the copy alone.
\<close>

theorem channel_file_detection:
  "fetchEntry env st file =
     (case copyEntry env st file of
        Inl a \<Rightarrow> Inl a
      | Inr (st', inBuf) \<Rightarrow>
          if (\<exists>seg1 seg2. zf_Name file = seg1 @ ''/'' @ seg2 \<and>
                CHR ''/'' \<notin> set seg1 \<and> CHR ''/'' \<notin> set seg2 \<and>
                \<not> prefix ''__'' seg1 \<and> suffix ''.json'' seg2)
          then exitOnError (processChannelFile env st' file inBuf (attachmentsApiToken env))
          else Inr st')"
  unfolding fetchEntry_def isChannelFile_iff ..

theorem channel_file_detection_witness:
  "fetchEntry quiet_env init_state entry_users =
     Inr \<lparr>zipw = [(''users.json'', ''[]'')], closed = False, stdout = [], logged = [],
          requests = []\<rparr> \<and>
   fetchEntry quiet_env init_state entry_random =
     Inl (Exit 1,
          \<lparr>zipw = [(''random/2021-01-01.json'', ''oops'')], closed = False,
           stdout = [''Couldn't parse the JSON file: random/2021-01-01.json'' @
                     [CHR 0x0A, CHR 0x0A] @ ''invalid character'' @ [CHR 0x0A]],
           logged = [], requests = []\<rparr>)"
proof -
  have u: "\<not> isChannelFile (zf_Name entry_users)"
    by (simp add: model_defs example_defs)
  have r: "isChannelFile (zf_Name entry_random)"
    by (simp add: model_defs example_defs)
  have cu: "copyEntry quiet_env init_state entry_users =
              Inr (\<lparr>zipw = [(''users.json'', ''[]'')], closed = False, stdout = [], logged = [],
                    requests = []\<rparr>, ''[]'')"
    by (simp add: model_defs example_defs)
  have cr: "copyEntry quiet_env init_state entry_random =
              Inr (\<lparr>zipw = [(''random/2021-01-01.json'', ''oops'')], closed = False,
                    stdout = [], logged = [], requests = []\<rparr>, ''oops'')"
    by (simp add: model_defs example_defs)
  from channel_file_detection[of quiet_env init_state entry_users]
    channel_file_detection[of quiet_env init_state entry_random]
  show ?thesis
    unfolding isChannelFile_iff[symmetric] cu cr using u r
    by (simp add: processChannelFile_def exitOnError_def fmt_Printf_def json_Unmarshal_def
                  is_json_space_def example_defs)
qed

subsection \<open>C4: legacy file_share posts\<close>

text \<open>
  Claim C4. For a post of subtype \<open>file_share\<close>: when the legacy file object is
  present, the post is processed as the one descriptor that this object is; when it is
  absent, the post is skipped with a warning that carries its timestamp, which is not
  what a post without files gets (that one leaves the state as it is).
\<close>

theorem legacy_file_share_post:
  "Subtype post = ''file_share'' \<Longrightarrow>
     processPost env st post token =
       (case File post of
          Some f \<Rightarrow> Inr (processFile env st (Ts post) f token)
        | None \<Rightarrow>
            Inr (log_Print st (''++++++ file_share post has no File property: '' @ Ts post @
                               [CHR 0x0A]))) \<and>
     (File post = None \<longrightarrow> processPost env st post token \<noteq> Inr st)"
  by (auto simp: processPost_def processPostFiles_def log_Print_neq split: option.splits)

theorem legacy_file_share_post_witness:
  "Subtype post_legacy = ''file_share'' \<and>
   processPost net_env init_state post_legacy ''tok'' =
     Inr \<lparr>zipw = [(''__uploads/F1/a.png'', ''DATA'')], closed = False,
          stdout = [''Downloaded attachment into output archive: F1.'' @ [CHR 0x0A]],
          logged = [[CHR 0x0A], ''++++++ Processing file: F1'' @ [CHR 0x0A],
                    ''++++++ Local file path: ''],
          requests = [(''http://x/d'', Some ''Bearer tok'')]\<rparr> \<and>
   Subtype post_no_file = ''file_share'' \<and> File post_no_file = None \<and>
   processPost net_env init_state post_no_file ''tok'' =
     Inr \<lparr>zipw = [], closed = False, stdout = [],
          logged = [''++++++ file_share post has no File property: 1600.0002'' @ [CHR 0x0A]],
          requests = []\<rparr> \<and>
   processPost net_env init_state post_no_file ''tok'' \<noteq> Inr init_state"
  using legacy_file_share_post[of post_legacy net_env init_state "''tok''"]
    legacy_file_share_post[of post_no_file net_env init_state "''tok''"]
  by (simp add: model_defs example_defs)

subsection \<open>C5: the derived display name\<close>

text \<open>
  Claim C5, as amended. For a descriptor with an identifier (free of \<open>/\<close>, as the name
  of a directory entry is) and an empty display name, whose local file is
  \<open><id>-My File!!.png\<close>, the derived display name is \<open>My_File__.png\<close>: the identifier
  and the dash are stripped, each whitespace or punctuation character of the name
  without its extension becomes one underscore, and the extension is put back.
\<close>

theorem derived_name_example:
  assumes "sf_Id file \<noteq> []" and "sf_Name file = []" and "localAttachmentsDir env \<noteq> []"
    and "ioutil_ReadDir env (localAttachmentsDir env) = Inr names"
    and "find (\<lambda>f. strings_HasPrefix f (sf_Id file)) names = Some (sf_Id file @ ''-My File!!.png'')"
    and "CHR ''/'' \<notin> set (sf_Id file)"
  shows "sf_Name (fst (snd (lookupLocal env st file))) = ''My_File__.png''"
proof -
  have "findLocalAttachment env (sf_Id file) (localAttachmentsDir env) =
          Inr (filepath_Join (localAttachmentsDir env) (sf_Id file @ ''-My File!!.png''))"
    using assms(3-5) by (simp add: findLocalAttachment_def)
  then show ?thesis
    unfolding lookupLocal_eq using assms(1-3) deriveName_My_File[OF assms(6)] by simp
qed

theorem derived_name_example_witness:
  "sf_Id file_F1_local = ''F1'' \<and> sf_Name file_F1_local = [] \<and>
   localAttachmentsDir local_env = ''att'' \<and>
   ioutil_ReadDir local_env ''att'' = Inr [''F1-My File!!.png'', ''F2-b.txt''] \<and>
   sf_Name (fst (snd (lookupLocal local_env init_state file_F1_local))) = ''My_File__.png''"
proof -
  have 1: "sf_Id file_F1_local \<noteq> []" and 2: "sf_Name file_F1_local = []"
    and 3: "localAttachmentsDir local_env \<noteq> []"
    by (simp_all add: example_defs)
  have 4: "ioutil_ReadDir local_env (localAttachmentsDir local_env) =
             Inr [''F1-My File!!.png'', ''F2-b.txt'']"
    by (simp add: example_defs)
  have 5: "find (\<lambda>f. strings_HasPrefix f (sf_Id file_F1_local))
             [''F1-My File!!.png'', ''F2-b.txt''] = Some (sf_Id file_F1_local @ ''-My File!!.png'')"
    by (simp add: example_defs strings_HasPrefix_def)
  have 6: "CHR ''/'' \<notin> set (sf_Id file_F1_local)"
    by (simp add: example_defs)
  from derived_name_example[OF 1 2 3 4 5 6, of init_state] show ?thesis
    by (simp add: example_defs)
qed

text \<open>The claim as stated fails: the name derived from \<open>F1-My File!!.png\<close> is
  \<open>My_File__.png\<close>, with one underscore for each of the two exclamation marks, and not
  \<open>My_File.png\<close>.\<close>

theorem derived_name_counterexample:
  "ioutil_ReadDir local_env ''att'' = Inr [''F1-My File!!.png'', ''F2-b.txt''] \<and>
   sf_Name (fst (snd (lookupLocal local_env init_state file_F1_local))) = ''My_File__.png'' \<and>
   sf_Name (fst (snd (lookupLocal local_env init_state file_F1_local))) \<noteq> ''My_File.png''"
  by (simp add: model_defs example_defs)

subsection \<open>C6: descriptors with missing properties\<close>

text \<open>
  Claim C6. For a descriptor for which no local path was found and whose identifier is
  empty, or whose display name is empty, or whose two URL fields are both empty, the
  loop body only logs: the archive, the requests and the printed lines are as before, the
  last logged line is the warning with the timestamp of the post, and the loop goes on
  with the next descriptor.
\<close>

theorem missing_properties_skip:
  assumes "lookupLocal env st0 file = ([], file', st0')"
    and "sf_Id file = [] \<or> sf_Name file = [] \<or>
         (sf_UrlPrivate file = [] \<and> sf_UrlPrivateDownload file = [])"
  shows "let st' = st\<lparr>logged := logged st @
                        [[CHR 0x0A],
                         ''++++++ Processing file: '' @ sf_Id file @ [CHR 0x0A],
                         ''++++++ Local file path: '',
                         ''++++++ file_share post has missing properties on its File object: '' @
                           ts @ [CHR 0x0A]]\<rparr>
         in processFile env st ts file token = st' \<and>
            processFiles env st ts (Some file # rest) token = processFiles env st' ts rest token"
proof -
  have m: "missingProperties file"
    using assms(2) by (auto simp: missingProperties_def)
  have eq: "processFile env st ts file token =
          st\<lparr>logged := logged st @
                 [[CHR 0x0A],
                  ''++++++ Processing file: '' @ sf_Id file @ [CHR 0x0A],
                  ''++++++ Local file path: '',
                  ''++++++ file_share post has missing properties on its File object: '' @
                    ts @ [CHR 0x0A]]\<rparr>"
    unfolding processFile_def Let_def lookupLocal_none[OF assms(1)]
    using m by (simp add: log_Print_def)
  show ?thesis
    unfolding Let_def processFiles.simps eq by (rule conjI; rule refl)
qed

theorem missing_properties_skip_witness:
  "lookupLocal net_env init_state file_none =
     ([], file_none, init_state\<lparr>logged := [''++++++ Local file path: '']\<rparr>) \<and>
   sf_Id file_none = [] \<and>
   processFile net_env init_state ''1600.0003'' file_none ''tok'' =
     init_state\<lparr>logged :=
       [[CHR 0x0A], ''++++++ Processing file: '' @ [CHR 0x0A], ''++++++ Local file path: '',
        ''++++++ file_share post has missing properties on its File object: 1600.0003'' @
          [CHR 0x0A]]\<rparr> \<and>
   processFiles net_env init_state ''1600.0003'' [Some file_none, Some file_F1] ''tok'' =
     Inr \<lparr>zipw = [(''__uploads/F1/a.png'', ''DATA'')], closed = False,
          stdout = [''Downloaded attachment into output archive: F1.'' @ [CHR 0x0A]],
          logged = [[CHR 0x0A], ''++++++ Processing file: '' @ [CHR 0x0A],
                    ''++++++ Local file path: '',
                    ''++++++ file_share post has missing properties on its File object: 1600.0003'' @
                      [CHR 0x0A],
                    [CHR 0x0A], ''++++++ Processing file: F1'' @ [CHR 0x0A],
                    ''++++++ Local file path: ''],
          requests = [(''http://x/d'', Some ''Bearer tok'')]\<rparr>"
proof -
  have res: "lookupLocal net_env init_state file_none =
     ([], file_none, init_state\<lparr>logged := [''++++++ Local file path: '']\<rparr>)"
    by (simp add: model_defs example_defs)
  have m: "sf_Id file_none = [] \<or> sf_Name file_none = [] \<or>
           (sf_UrlPrivate file_none = [] \<and> sf_UrlPrivateDownload file_none = [])"
    by (simp add: example_defs)
  from missing_properties_skip[OF res m, of init_state "''1600.0003''" "''tok''" "[Some file_F1]"]
    res
  show ?thesis
    by (simp add: model_defs example_defs)
qed

subsection \<open>C7: a channel file that does not parse\<close>

text \<open>
  Claim C7, as amended. When the run reaches a channel file whose bytes the JSON decoder
  rejects, it ends there: the error is printed, the process exits with status 1, and the
  output archive is what it was right after the copy of that entry; the entries after it
  are not written, and the archive is not closed. The decoder does not reject every
  sequence of bytes that is not a JSON array of posts: it takes the JSON value \<open>null\<close>
  for no posts at all.
\<close>

theorem malformed_json_is_fatal:
  assumes "zip_OpenReader env = Inr (before @ file # after)"
    and "os_Create_err env = None"
    and "fetchEntries env init_state before = Inr st1"
    and "copyEntry env st1 file = Inr (st2, inBuf)"
    and "isChannelFile (zf_Name file)"
    and "json_Unmarshal env inBuf = Inl err"
  shows "fetchAttachments env =
           Inl (Exit 1,
                fmt_Printf st2 (''Couldn't parse the JSON file: '' @ zf_Name file @
                                [CHR 0x0A, CHR 0x0A] @ err @ [CHR 0x0A]))"
proof -
  have "fetchEntry env st1 file =
          Inl (Exit 1,
               fmt_Printf st2 (''Couldn't parse the JSON file: '' @ zf_Name file @
                               [CHR 0x0A, CHR 0x0A] @ err @ [CHR 0x0A]))"
    using assms(4-6) by (simp add: fetchEntry_def processChannelFile_def exitOnError_def)
  then show ?thesis
    using assms(1-3) by (simp add: fetchAttachments_def fetchEntries_append)
qed

theorem malformed_json_is_fatal_witness:
  "zip_OpenReader bad_json_env = Inr ([entry_channels] @ entry_random # [entry_users]) \<and>
   isChannelFile (zf_Name entry_random) \<and>
   json_Unmarshal bad_json_env ''oops'' = Inl ''invalid character'' \<and>
   fetchAttachments bad_json_env =
     Inl (Exit 1,
          \<lparr>zipw = [(''channels.json'', ''[]''), (''random/2021-01-01.json'', ''oops'')],
           closed = False,
           stdout = [''Couldn't parse the JSON file: random/2021-01-01.json'' @
                     [CHR 0x0A, CHR 0x0A] @ ''invalid character'' @ [CHR 0x0A]],
           logged = [], requests = []\<rparr>)"
proof -
  let ?st1 = "\<lparr>zipw = [(''channels.json'', ''[]'')], closed = False, stdout = [],
               logged = [], requests = []\<rparr>"
  let ?st2 = "\<lparr>zipw = [(''channels.json'', ''[]''), (''random/2021-01-01.json'', ''oops'')],
               closed = False, stdout = [], logged = [], requests = []\<rparr>"
  have 1: "zip_OpenReader bad_json_env = Inr ([entry_channels] @ entry_random # [entry_users])"
    by (simp add: example_defs)
  have 2: "os_Create_err bad_json_env = None"
    by (simp add: example_defs)
  have 3: "fetchEntries bad_json_env init_state [entry_channels] = Inr ?st1"
    by (simp add: model_defs example_defs)
  have 4: "copyEntry bad_json_env ?st1 entry_random = Inr (?st2, ''oops'')"
    by (simp add: model_defs example_defs)
  have 5: "isChannelFile (zf_Name entry_random)"
    by (simp add: model_defs example_defs)
  have 6: "json_Unmarshal bad_json_env ''oops'' = Inl ''invalid character''"
    by (simp add: json_Unmarshal_def is_json_space_def example_defs)
  from malformed_json_is_fatal[OF 1 2 3 4 5 6] 1 5 6 show ?thesis
    by (simp add: fmt_Printf_def example_defs)
qed

text \<open>The claim as stated fails for a channel file that holds \<open>null\<close>, which is not a
  JSON array of posts: it is decoded without error, the run goes on to copy the next
  entry, closes the archive and returns nil.\<close>

theorem null_channel_file_counterexample:
  "zip_OpenReader null_env = Inr [entry_null, entry_users] \<and>
   isChannelFile (zf_Name entry_null) \<and>
   zf_Open entry_null = Inr (''null'', None) \<and>
   json_Unmarshal null_env ''null'' = Inr [] \<and>
   fetchAttachments null_env =
     Inr \<lparr>zipw = [(''general/2021-01-03.json'', ''null''), (''users.json'', ''[]'')],
          closed = True, stdout = [], logged = [], requests = []\<rparr>"
  by (simp add: model_defs example_defs)

subsection \<open>C8: an output archive that cannot be closed\<close>




subsection \<open>C9: the download URL\<close>

text \<open>
  Claim C9. A descriptor that reaches the download step (its entry was created and the
  request could be built) issues exactly one request, to the download URL field when that
  field is not empty and to the private URL field otherwise; when both are present the
  download URL field is used.
\<close>

theorem download_url_choice:
  assumes res: "lookupLocal env st0 file = (localFilePath, file', st0')"
    and reach: "localFilePath \<noteq> [] \<or> \<not> missingProperties file'"
    and create: "zip_create_err env (zipw st)
                   (''__uploads/'' @ sf_Id file' @ ''/'' @ sf_Name file') = None"
    and req: "http_NewRequest_ok env
                (if sf_UrlPrivateDownload file \<noteq> [] then sf_UrlPrivateDownload file
                 else sf_UrlPrivate file)"
  shows "requests (processFile env st ts file token) =
           requests st @
             [(if sf_UrlPrivateDownload file \<noteq> [] then sf_UrlPrivateDownload file
               else sf_UrlPrivate file,
               if token \<noteq> [] then Some (''Bearer '' @ token) else None)]"
proof -
  have url: "chooseDownloadUrl file' =
       (if sf_UrlPrivateDownload file \<noteq> [] then sf_UrlPrivateDownload file
        else sf_UrlPrivate file)"
    using lookupLocal_fields[OF res] by (simp add: chooseDownloadUrl_def)
  from processFile_reaches_fetch[OF res reach create, of ts token]
  obtain st1 where r: "requests st1 = requests st"
    and p: "processFile env st ts file token =
              fetchFile env st1 file' (chooseDownloadUrl file') token"
    by blast
  from req have "http_NewRequest_ok env (chooseDownloadUrl file')"
    unfolding url .
  from fetchFile_requests[OF this, of st1 file' token] show ?thesis
    unfolding p r url .
qed

theorem download_url_choice_witness:
  "lookupLocal net_env init_state file_F1 =
     ([], file_F1, init_state\<lparr>logged := [''++++++ Local file path: '']\<rparr>) \<and>
   sf_UrlPrivateDownload file_F1 = ''http://x/d'' \<and> sf_UrlPrivate file_F1 = ''http://x/f'' \<and>
   requests (processFile net_env init_state ''1600.0001'' file_F1 ''tok'') =
     [(''http://x/d'', Some ''Bearer tok'')]"
proof -
  have res: "lookupLocal net_env init_state file_F1 =
     ([], file_F1, init_state\<lparr>logged := [''++++++ Local file path: '']\<rparr>)"
    by (simp add: model_defs example_defs)
  have reach: "[] \<noteq> ([] :: string) \<or> \<not> missingProperties file_F1"
    by (simp add: missingProperties_def example_defs)
  have create: "zip_create_err net_env (zipw init_state)
                  (''__uploads/'' @ sf_Id file_F1 @ ''/'' @ sf_Name file_F1) = None"
    by (simp add: example_defs)
  have req: "http_NewRequest_ok net_env
               (if sf_UrlPrivateDownload file_F1 \<noteq> [] then sf_UrlPrivateDownload file_F1
                else sf_UrlPrivate file_F1)"
    by (simp add: example_defs)
  from download_url_choice[OF res reach create req, of "''1600.0001''" "''tok''"] res
  show ?thesis
    by (simp add: init_state_def file_F1_def)
qed

subsection \<open>C10: the files array of a legacy post\<close>

text \<open>
  Claim C10. For a post of subtype \<open>file_share\<close> with a legacy file object, the files
  array is replaced by the list holding that object alone: whatever the array held
  before, the post is processed as that one descriptor, and the descriptors of the array
  are never looked at.
\<close>

theorem legacy_file_replaces_files:
  "Subtype post = ''file_share'' \<Longrightarrow> File post = Some f \<Longrightarrow>
     processPost env st (post\<lparr>Files := fs\<rparr>) token = Inr (processFile env st (Ts post) f token) \<and>
     processPost env st (post\<lparr>Files := fs\<rparr>) token =
       processPost env st (post\<lparr>Files := Some [Some f]\<rparr>) token"
  by (simp add: processPost_def processPostFiles_def)

theorem legacy_file_replaces_files_witness:
  "Subtype post_legacy = ''file_share'' \<and> File post_legacy = Some file_F1 \<and>
   Files post_legacy = Some [Some file_none, None] \<and>
   processPost net_env init_state (post_legacy\<lparr>Files := Some [Some file_none, None]\<rparr>) ''tok'' =
     Inr \<lparr>zipw = [(''__uploads/F1/a.png'', ''DATA'')], closed = False,
          stdout = [''Downloaded attachment into output archive: F1.'' @ [CHR 0x0A]],
          logged = [[CHR 0x0A], ''++++++ Processing file: F1'' @ [CHR 0x0A],
                    ''++++++ Local file path: ''],
          requests = [(''http://x/d'', Some ''Bearer tok'')]\<rparr>"
proof -
  have 1: "Subtype post_legacy = ''file_share''" and 2: "File post_legacy = Some file_F1"
    by (simp_all add: example_defs)
  from legacy_file_replaces_files[OF 1 2, of net_env init_state "Some [Some file_none, None]" "''tok''"]
    1 2
  show ?thesis
    by (simp add: model_defs example_defs)
qed

end
